theory Spec2Isabelle
  imports Complex_Main "HOL-Library.Word"
begin

unbundle bit_operations_syntax

section \<open>The in-memory filesystem of fs-go, embedded\<close>

text \<open>
  The development follows the Go sources: package \<open>fs\<close> (path cleaning, \<open>Attribute\<close>,
  \<open>Entry\<close>, the error values and open flags) and package \<open>memfs\<close> (\<open>fd\<close>, \<open>File\<close>,
  \<open>MemFS\<close>). Pointers to \<open>fd\<close> and \<open>MemFS\<close> objects are indices into a heap, since
  several handles and the directory tree share them. Go's \<open>(value, error)\<close> results are
  sums, with \<open>Inl\<close> the error. A run-time panic (a failed type assertion, a slice bound
  out of range, a length that \<open>make\<close> refuses) is the error \<open>Panic\<close>, and a call that waits for ever on a lock that is
  never released is the error \<open>Blocked\<close>. The build is the Unix one: the path separator
  is the slash and there are no volume names.
\<close>

subsection \<open>Errors\<close>

datatype error =
    ErrInvalid            \<comment> \<open>io/fs ErrInvalid\<close>
  | ErrNotExist           \<comment> \<open>io/fs ErrNotExist\<close>
  | ErrExist              \<comment> \<open>io/fs ErrExist\<close>
  | ErrClosed             \<comment> \<open>io/fs ErrClosed\<close>
  | EOF                   \<comment> \<open>io.EOF\<close>
  | ErrCtimeMismatch
  | ErrIsDir
  | ErrInvalidEntryType
  | ErrMtimeMismatch
  | ErrNotDir
  | ErrNotFile
  | ErrTooLarge
  | ErrNotImplemented     \<comment> \<open>errors.New("not implemented")\<close>
  | ErrIsADirectory       \<comment> \<open>errors.New("is a directory")\<close>
  | ErrWriteOnly          \<comment> \<open>errors.New("file is write-only")\<close>
  | ErrReadOnly           \<comment> \<open>errors.New("file is read-only")\<close>
  | ErrInvalidWhence      \<comment> \<open>errors.New("invalid whence")\<close>
  | ErrNegativePosition   \<comment> \<open>errors.New("negative position")\<close>
  | ErrPathInvalid string \<comment> \<open>errors.New("entry: path is invalid: ...")\<close>
  | ErrCollectionEmpty    \<comment> \<open>collection.ErrCollectionEmpty\<close>
  | ErrNotFound           \<comment> \<open>collection.ErrNotFound\<close>
  | ErrKeyRejected        \<comment> \<open>the error of the trie for a key it does not store\<close>
  | ErrKeyExists          \<comment> \<open>the error of the trie for a key it holds already\<close>
  | PathError string string error  \<comment> \<open>io/fs PathError: Op, Path, Err\<close>
  | Wrap string error     \<comment> \<open>fmt.Errorf("prefix: %w", err)\<close>
  | Panic
  | Blocked

text \<open>\<open>errors.Is\<close>: the error itself or one it wraps.\<close>

fun errors_Is :: "error \<Rightarrow> error \<Rightarrow> bool" where
  "errors_Is (PathError op' p e) t = (PathError op' p e = t \<or> errors_Is e t)"
| "errors_Is (Wrap s e) t = (Wrap s e = t \<or> errors_Is e t)"
| "errors_Is e t = (e = t)"

subsection \<open>Strings and paths of the Go standard library\<close>

text \<open>
  A Go string is a sequence of bytes, here a \<open>string\<close>. \<open>strings.TrimSpace\<close> removes
  the leading and trailing white space runes of Unicode; in UTF-8 these are six ASCII
  bytes, two runes of two bytes and fifteen runes of three bytes.
\<close>

definition space1 :: "char list" where
  "space1 = [CHR 0x09, CHR 0x0A, CHR 0x0B, CHR 0x0C, CHR 0x0D, CHR 0x20]"

definition space2 :: "string list" where
  "space2 = [[CHR 0xC2, CHR 0x85], [CHR 0xC2, CHR 0xA0]]"

definition space3 :: "string list" where
  "space3 = [[CHR 0xE1, CHR 0x9A, CHR 0x80],
     [CHR 0xE2, CHR 0x80, CHR 0x80], [CHR 0xE2, CHR 0x80, CHR 0x81],
     [CHR 0xE2, CHR 0x80, CHR 0x82], [CHR 0xE2, CHR 0x80, CHR 0x83],
     [CHR 0xE2, CHR 0x80, CHR 0x84], [CHR 0xE2, CHR 0x80, CHR 0x85],
     [CHR 0xE2, CHR 0x80, CHR 0x86], [CHR 0xE2, CHR 0x80, CHR 0x87],
     [CHR 0xE2, CHR 0x80, CHR 0x88], [CHR 0xE2, CHR 0x80, CHR 0x89],
     [CHR 0xE2, CHR 0x80, CHR 0x8A], [CHR 0xE2, CHR 0x80, CHR 0xA8],
     [CHR 0xE2, CHR 0x80, CHR 0xA9], [CHR 0xE2, CHR 0x80, CHR 0xAF],
     [CHR 0xE2, CHR 0x81, CHR 0x9F], [CHR 0xE3, CHR 0x80, CHR 0x80]]"

text \<open>Dropping the runes of the given tables from the front of a string.\<close>

fun trim_runes :: "string list \<Rightarrow> string list \<Rightarrow> string \<Rightarrow> string" where
  "trim_runes t2 t3 (a # b # c # s) =
     (if a \<in> set space1 then trim_runes t2 t3 (b # c # s)
      else if [a, b] \<in> set t2 then trim_runes t2 t3 (c # s)
      else if [a, b, c] \<in> set t3 then trim_runes t2 t3 s
      else a # b # c # s)"
| "trim_runes t2 t3 [a, b] =
     (if a \<in> set space1 then trim_runes t2 t3 [b]
      else if [a, b] \<in> set t2 then [] else [a, b])"
| "trim_runes t2 t3 [a] = (if a \<in> set space1 then [] else [a])"
| "trim_runes t2 t3 [] = []"

definition TrimSpace :: "string \<Rightarrow> string" where
  "TrimSpace s =
     rev (trim_runes (map rev space2) (map rev space3) (rev (trim_runes space2 space3 s)))"

text \<open>\<open>utf8.ValidString\<close>, on the byte values.\<close>

definition cont :: "nat \<Rightarrow> bool" where
  "cont b = (128 \<le> b \<and> b \<le> 191)"

fun utf8_valid :: "nat list \<Rightarrow> bool" where
  "utf8_valid [] = True"
| "utf8_valid [a] = (a < 128)"
| "utf8_valid [a, b] =
     (if a < 128 then utf8_valid [b] else 194 \<le> a \<and> a \<le> 223 \<and> cont b)"
| "utf8_valid [a, b, c] =
     (if a < 128 then utf8_valid [b, c]
      else if 194 \<le> a \<and> a \<le> 223 then cont b \<and> utf8_valid [c]
      else if a = 224 then 160 \<le> b \<and> b \<le> 191 \<and> cont c
      else if a = 237 then 128 \<le> b \<and> b \<le> 159 \<and> cont c
      else 225 \<le> a \<and> a \<le> 239 \<and> cont b \<and> cont c)"
| "utf8_valid (a # b # c # d # s) =
     (if a < 128 then utf8_valid (b # c # d # s)
      else if 194 \<le> a \<and> a \<le> 223 then cont b \<and> utf8_valid (c # d # s)
      else if a = 224 then 160 \<le> b \<and> b \<le> 191 \<and> cont c \<and> utf8_valid (d # s)
      else if a = 237 then 128 \<le> b \<and> b \<le> 159 \<and> cont c \<and> utf8_valid (d # s)
      else if 225 \<le> a \<and> a \<le> 239 then cont b \<and> cont c \<and> utf8_valid (d # s)
      else if a = 240 then 144 \<le> b \<and> b \<le> 191 \<and> cont c \<and> cont d \<and> utf8_valid s
      else if a = 244 then 128 \<le> b \<and> b \<le> 143 \<and> cont c \<and> cont d \<and> utf8_valid s
      else 241 \<le> a \<and> a \<le> 243 \<and> cont b \<and> cont c \<and> cont d \<and> utf8_valid s)"

text \<open>\<open>strings.Split(s, "/")\<close> and \<open>strings.Join(elems, "/")\<close>.\<close>

fun Split :: "string \<Rightarrow> string list" where
  "Split [] = [[]]"
| "Split (c # cs) =
     (if c = CHR ''/'' then [] # Split cs
      else (case Split cs of [] \<Rightarrow> [[c]] | x # xs \<Rightarrow> (c # x) # xs))"

fun Join :: "string list \<Rightarrow> string" where
  "Join [] = []"
| "Join [x] = x"
| "Join (x # y # ys) = x @ ''/'' @ Join (y # ys)"

text \<open>
  \<open>io/fs.ValidPath\<close>: valid UTF-8, and either the single dot or slash-separated elements
  none of which is empty, a dot or two dots.
\<close>

definition ValidPath :: "string \<Rightarrow> bool" where
  "ValidPath name =
     (utf8_valid (map of_char name) \<and>
      (name = ''.'' \<or> list_all (\<lambda>e. e \<noteq> [] \<and> e \<noteq> ''.'' \<and> e \<noteq> ''..'') (Split name)))"

text \<open>
  \<open>path.Clean\<close> (and \<open>filepath.Clean\<close> on Unix): single slashes, no dot element, an
  inner two-dots element removed with the element before it, two dots at the root
  removed; the empty result is the dot. The stack holds the elements kept, last first.
\<close>

fun clean_elems :: "bool \<Rightarrow> string list \<Rightarrow> string list \<Rightarrow> string list" where
  "clean_elems rooted stk [] = rev stk"
| "clean_elems rooted stk (e # es) =
     (if e = [] \<or> e = ''.'' then clean_elems rooted stk es
      else if e = ''..'' then
        (case stk of
           [] \<Rightarrow> if rooted then clean_elems rooted [] es else clean_elems rooted [e] es
         | t # ts \<Rightarrow>
             if t = ''..'' then clean_elems rooted (e # stk) es
             else clean_elems rooted ts es)
      else clean_elems rooted (e # stk) es)"

definition Clean :: "string \<Rightarrow> string" where
  "Clean p =
     (let rooted = (p \<noteq> [] \<and> hd p = CHR ''/'');
          out = (if rooted then ''/'' else []) @ Join (clean_elems rooted [] (Split p))
      in if out = [] then ''.'' else out)"

text \<open>\<open>filepath.Dir\<close>: the path up to its last slash, cleaned.\<close>

definition Dir :: "string \<Rightarrow> string" where
  "Dir p = Clean (rev (dropWhile (\<lambda>c. c \<noteq> CHR ''/'') (rev p)))"

text \<open>
  \<open>filepath.Base\<close> and \<open>path.Base\<close>: the last element, trailing slashes removed first;
  the dot for the empty path and the slash for a path of slashes only.
\<close>

definition Base :: "string \<Rightarrow> string" where
  "Base p =
     (if p = [] then ''.''
      else let q = dropWhile (\<lambda>c. c = CHR ''/'') (rev p);
               r = rev (takeWhile (\<lambda>c. c \<noteq> CHR ''/'') q)
           in if r = [] then ''/'' else r)"

subsection \<open>Package fs: CleanPath and SplitPath\<close>

text \<open>
  \<open>CleanPath\<close> returns the trimmed path also with its error. The file system argument
  is never nil in package memfs, its separator is the slash, and \<open>filepath.VolumeName\<close>
  is empty on Unix.
\<close>

definition CleanPath :: "string \<Rightarrow> string \<times> error option" where
  "CleanPath p0 =
     (let p = TrimSpace p0 in
      if \<not> ValidPath p then (p, Some (Wrap p ErrInvalid))
      else if p \<noteq> [] \<and> last p = CHR ''/'' then (butlast p, None)
      else (p, None))"

definition SplitPath :: "string \<Rightarrow> error + string list" where
  "SplitPath p =
     (case CleanPath p of
        (path, Some err) \<Rightarrow> Inl err
      | (path, None) \<Rightarrow> Inr (filter (\<lambda>s. s \<noteq> []) (Split path)))"

subsection \<open>Package fs: flags, limits, Attribute and Entry\<close>

text \<open>The open flags are those of package os on Linux; \<open>MaxContentLen\<close> is the largest int.\<close>

definition O_RDONLY :: int where "O_RDONLY = 0"
definition O_WRONLY :: int where "O_WRONLY = 1"
definition O_RDWR :: int where "O_RDWR = 2"
definition O_CREATE :: int where "O_CREATE = 64"
definition O_TRUNC :: int where "O_TRUNC = 512"
definition O_APPEND :: int where "O_APPEND = 1024"

definition MaxContentLen :: int where
  "MaxContentLen = 2 ^ 63 - 1"

definition ModeDir :: "32 word" where
  "ModeDir = 0x80000000"

text \<open>
  A \<open>time.Time\<close> is an instant: the number of nanoseconds since the zero time of Go,
  so that \<open>IsZero\<close> is equality with 0, \<open>Before\<close> is \<open><\<close> and \<open>UTC\<close> changes nothing.
\<close>

type_synonym time = int

record Attribute =
  a_ctime :: time
  a_gid :: int
  a_group :: string
  a_inode :: int
  a_mimeType :: string
  a_mode :: "32 word"
  a_mtime :: time
  a_owner :: string
  a_size :: int
  a_uid :: int

record Entry =
  e_attrs :: Attribute
  e_path :: string
  e_pathValidator :: "(string \<Rightarrow> bool) option"

text \<open>The zero value \<open>&Attribute{}\<close> and the option \<open>WithMode\<close>.\<close>

definition Attribute0 :: Attribute where
  "Attribute0 = \<lparr>a_ctime = 0, a_gid = 0, a_group = [], a_inode = 0, a_mimeType = [],
     a_mode = 0, a_mtime = 0, a_owner = [], a_size = 0, a_uid = 0\<rparr>"

definition WithMode :: "32 word \<Rightarrow> Attribute \<Rightarrow> Attribute" where
  "WithMode m a = a\<lparr>a_mode := m\<rparr>"

text \<open>
  \<open>NewAttributes\<close>, given the attribute its options have built and the reading
  \<open>now\<close> of the clock (used only when the creation time is zero).
\<close>

definition NewAttributes :: "Attribute \<Rightarrow> time \<Rightarrow> error + Attribute" where
  "NewAttributes a now =
     (let attrs = (if a_ctime a = 0 then a\<lparr>a_ctime := now\<rparr> else a) in
      if a_mtime attrs \<noteq> 0 \<and> a_mtime attrs < a_ctime attrs
      then Inl (Wrap ''attribute'' ErrCtimeMismatch)
      else Inr attrs)"

definition validPath :: "string \<Rightarrow> (string \<Rightarrow> bool) option \<Rightarrow> error option" where
  "validPath p v =
     (let v' = (case v of None \<Rightarrow> ValidPath | Some f \<Rightarrow> f) in
      if \<not> v' p then Some (ErrPathInvalid p) else None)"

text \<open>
  \<open>NewEntry\<close> with the attributes and the validator its options set; package memfs
  always passes \<open>WithAttributes\<close>, so the branch that builds default attributes is
  not taken there and the entry comes without a reading of the clock.
\<close>

definition NewEntry :: "string \<Rightarrow> (string \<Rightarrow> bool) option \<Rightarrow> Attribute \<Rightarrow> error + Entry" where
  "NewEntry p v attrs =
     (case validPath p v of
        Some err \<Rightarrow> Inl err
      | None \<Rightarrow> Inr \<lparr>e_attrs = attrs, e_path = p, e_pathValidator = v\<rparr>)"

definition IsDir :: "Entry \<Rightarrow> bool" where
  "IsDir e = (a_mode (e_attrs e) AND ModeDir \<noteq> 0)"

definition Name :: "Entry \<Rightarrow> string" where
  "Name e = Base (e_path e)"

definition Size :: "Entry \<Rightarrow> int" where
  "Size e = a_size (e_attrs e)"

definition ModTime :: "Entry \<Rightarrow> time" where
  "ModTime e = a_mtime (e_attrs e)"

definition SetModTime :: "Entry \<Rightarrow> time \<Rightarrow> error + Entry" where
  "SetModTime e t =
     (if t = 0 \<or> t = a_mtime (e_attrs e) then Inr e
      else if t < a_mtime (e_attrs e) then Inl (Wrap ''entry'' ErrMtimeMismatch)
      else Inr (e\<lparr>e_attrs := (e_attrs e)\<lparr>a_mtime := t\<rparr>\<rparr>))"

text \<open>The conversions \<open>uint64(x)\<close> of an int64 and \<open>int64(s)\<close> of a uint64.\<close>

definition to_uint64 :: "int \<Rightarrow> int" where
  "to_uint64 x = x mod 2 ^ 64"

definition to_int64 :: "int \<Rightarrow> int" where
  "to_int64 s = (s + 2 ^ 63) mod 2 ^ 64 - 2 ^ 63"

definition SetSize :: "Entry \<Rightarrow> int \<Rightarrow> Entry" where
  "SetSize e s =
     (if \<not> IsDir e then e\<lparr>e_attrs := (e_attrs e)\<lparr>a_size := to_int64 s\<rparr>\<rparr> else e)"

subsection \<open>The growth factor in float32\<close>

text \<open>
  \<open>growthFactor\<close> is \<open>float32(1.618)\<close>, the float nearest to 1.618: 13572768 / 2^23.
  A float32 has 24 significant bits and Go rounds to the nearest, ties to even.
  \<open>f32_round N\<close> rounds a natural number to 24 significant bits; since scaling by a
  power of two does not change the significant bits, it also rounds \<open>N / 2^23\<close>
  (returning the numerator). No value here reaches the exponent limits of float32.
\<close>

fun bitlen :: "nat \<Rightarrow> nat" where
  "bitlen n = (if n = 0 then 0 else Suc (bitlen (n div 2)))"

declare bitlen.simps [simp del]

definition f32_round :: "nat \<Rightarrow> nat" where
  "f32_round N =
     (if N < 2 ^ 24 then N
      else let s = bitlen N - 24; q = N div 2 ^ s; r = N mod 2 ^ s
           in (if 2 ^ s < 2 * r \<or> (2 * r = 2 ^ s \<and> odd q) then q + 1 else q) * 2 ^ s)"

definition growthFactor_num :: nat where
  "growthFactor_num = 13572768"

text \<open>
  \<open>int(growthFactor * float32(k))\<close> for \<open>k \<ge> 0\<close>: the conversion of \<open>k\<close> to float32, the
  float32 product, and the truncation of the conversion to int.
\<close>

definition grown :: "nat \<Rightarrow> nat" where
  "grown k = f32_round (growthFactor_num * f32_round k) div 2 ^ 23"

text \<open>
  The integer part of \<open>growthFactor * float32(k)\<close> for an int \<open>k\<close> of either sign
  (rounding is symmetric), and the conversion \<open>int(x)\<close> of a float to the 64-bit int.
  That conversion truncates; for a float outside the range of int the language leaves
  the result to the implementation, and the amd64 build gives the least int.
\<close>

definition growth_trunc :: "int \<Rightarrow> int" where
  "growth_trunc k = (if 0 \<le> k then int (grown (nat k)) else - int (grown (nat (- k))))"

definition int_of_float :: "int \<Rightarrow> int" where
  "int_of_float t = (if - (2 ^ 63) \<le> t \<and> t < 2 ^ 63 then t else - (2 ^ 63))"

subsection \<open>Package memfs: the heap of fd and MemFS objects\<close>

type_synonym byte = "8 word"

text \<open>
  \<open>fd_readers\<close> is the number of read locks held on the \<open>sync.RWMutex\<close> of the \<open>fd\<close>;
  its write lock is never held between two calls. The buffer \<open>fd_data\<close> is nil or the
  result of \<open>make([]byte, c)\<close>, so its capacity is its length.
\<close>

record fd =
  fd_data :: "byte list"
  fd_dir :: nat
  fd_entry :: Entry
  fd_readers :: nat

text \<open>
  The \<open>data\<close> of an \<open>fsEntry\<close> is a pointer to an \<open>fd\<close> or to a \<open>MemFS\<close>; its \<open>entry\<close>
  is the entry of that object. The trie \<open>entries\<close> of a \<open>MemFS\<close> maps the path of an
  entry to it; it is held as the list of its keys and values, in the order of
  insertion.
\<close>

datatype data_ref = FdRef nat | DirRef nat

record MemFS =
  m_closed :: bool
  m_entry :: Entry
  m_entries :: "(string \<times> data_ref) list"

text \<open>
  The clock is an infinite sequence of readings; \<open>h_ticks\<close> counts the calls of
  \<open>time.Now\<close> made so far.
\<close>

record heap =
  h_fds :: "fd list"
  h_dirs :: "MemFS list"
  h_clock :: "nat \<Rightarrow> time"
  h_ticks :: nat

definition time_Now :: "heap \<Rightarrow> time \<times> heap" where
  "time_Now h = (h_clock h (h_ticks h), h\<lparr>h_ticks := Suc (h_ticks h)\<rparr>)"

definition fd_at :: "heap \<Rightarrow> nat \<Rightarrow> fd option" where
  "fd_at h k = (if k < length (h_fds h) then Some (h_fds h ! k) else None)"

definition dir_at :: "heap \<Rightarrow> nat \<Rightarrow> MemFS option" where
  "dir_at h m = (if m < length (h_dirs h) then Some (h_dirs h ! m) else None)"

definition set_fd :: "heap \<Rightarrow> nat \<Rightarrow> fd \<Rightarrow> heap" where
  "set_fd h k d = h\<lparr>h_fds := (h_fds h)[k := d]\<rparr>"

definition set_dir :: "heap \<Rightarrow> nat \<Rightarrow> MemFS \<Rightarrow> heap" where
  "set_dir h m d = h\<lparr>h_dirs := (h_dirs h)[m := d]\<rparr>"

subsection \<open>fd\<close>

text \<open>
  \<open>fd.bytes\<close> takes the read lock and, in its deferred call, takes it once more
  instead of releasing it: two more readers after each call. A slice bound beyond
  the capacity panics.
\<close>

definition bytes :: "fd \<Rightarrow> (error + byte list) \<times> fd" where
  "bytes d =
     (let d' = d\<lparr>fd_readers := fd_readers d + 2\<rparr> in
      if Size (fd_entry d) > 0 then
        (if Size (fd_entry d) \<le> int (length (fd_data d))
         then (Inr (take (nat (Size (fd_entry d))) (fd_data d)), d')
         else (Inl Panic, d'))
      else (Inr (fd_data d), d'))"

text \<open>The builtin \<open>copy(dst, src)\<close>: the new contents of \<open>dst\<close>; it copies \<open>min\<close> of the lengths.\<close>

definition copy_bytes :: "'a list \<Rightarrow> 'a list \<Rightarrow> 'a list" where
  "copy_bytes dst src = take (length dst) src @ drop (length src) dst"

subsection \<open>File\<close>

text \<open>
  A \<open>File\<close> is owned by the caller that opened it; \<open>f_fd\<close> points to the shared \<open>fd\<close>.
  The mutex of the handle is released at the end of each call and is left out, and
  so is the directory iterator, which no operation below reads.
\<close>

record File =
  f_closed :: bool
  f_fd :: nat
  f_flag :: int
  f_rOff :: int
  f_wOff :: int

text \<open>
  \<open>newFile\<close>: the \<open>bytes.Buffer\<close> it resets is a local value, so truncation only sets
  the size of the entry to zero and leaves \<open>fd.data\<close> as it is.
\<close>

definition newFile :: "heap \<Rightarrow> nat \<Rightarrow> int \<Rightarrow> (error + File) \<times> heap" where
  "newFile h k flag =
     (case fd_at h k of
        None \<Rightarrow> (Inl Panic, h)
      | Some d \<Rightarrow>
          (Inr \<lparr>f_closed = False, f_fd = k, f_flag = flag, f_rOff = 0, f_wOff = 0\<rparr>,
           if flag AND O_TRUNC > 0
           then set_fd h k (d\<lparr>fd_entry := SetSize (fd_entry d) 0\<rparr>)
           else h))"

definition File_Close :: "File \<Rightarrow> error option \<times> File" where
  "File_Close f =
     (if \<not> f_closed f then (None, f\<lparr>f_closed := True\<rparr>)
      else (Some (Wrap ''memfs_file'' (PathError ''close'' [] ErrClosed)), f))"

definition File_Stat :: "heap \<Rightarrow> File \<Rightarrow> error + Entry" where
  "File_Stat h f =
     (case fd_at h (f_fd f) of
        None \<Rightarrow> Inl Panic
      | Some d \<Rightarrow>
          if f_closed f
          then Inl (Wrap ''memfs_file'' (PathError ''stat'' (e_path (fd_entry d)) ErrClosed))
          else if Name (fd_entry d) = ''.'' then
            (case dir_at h (fd_dir d) of
               None \<Rightarrow> Inl Panic
             | Some m \<Rightarrow> Inr (m_entry m))
          else Inr (fd_entry d))"

definition checkRegularFile :: "heap \<Rightarrow> File \<Rightarrow> string \<Rightarrow> error + Entry" where
  "checkRegularFile h f op' =
     (case File_Stat h f of
        Inl err \<Rightarrow> Inl err
      | Inr fi \<Rightarrow>
          if IsDir fi
          then Inl (Wrap ''memfs_file'' (PathError op' (Name fi) ErrIsADirectory))
          else Inr fi)"

definition checkRead :: "heap \<Rightarrow> File \<Rightarrow> string \<Rightarrow> error + Entry" where
  "checkRead h f op' =
     (case checkRegularFile h f op' of
        Inl err \<Rightarrow> Inl err
      | Inr fi \<Rightarrow>
          if f_flag f = O_WRONLY
          then Inl (Wrap ''memfs_file'' (PathError op' (Name fi) ErrWriteOnly))
          else Inr fi)"

definition checkWrite :: "heap \<Rightarrow> File \<Rightarrow> string \<Rightarrow> error + Entry" where
  "checkWrite h f op' =
     (case checkRegularFile h f op' of
        Inl err \<Rightarrow> Inl err
      | Inr fi \<Rightarrow>
          if f_flag f = O_RDONLY
          then Inl (Wrap ''memfs_file'' (PathError op' (Name fi) ErrReadOnly))
          else Inr fi)"

text \<open>
  The reading operations take the length of the buffer \<open>b\<close> and return the bytes
  copied into its front (their number is the count \<open>n\<close> of the Go result) with the
  error, the heap and the handle. \<open>File_Stat\<close> has found the \<open>fd\<close> when the checks pass.
\<close>

definition File_Read :: "heap \<Rightarrow> File \<Rightarrow> nat \<Rightarrow> (byte list \<times> error option) \<times> heap \<times> File" where
  "File_Read h f len_b =
     (case checkRead h f ''read'' of
        Inl err \<Rightarrow> (([], Some err), h, f)
      | Inr fi \<Rightarrow>
          if len_b = 0 then (([], None), h, f)
          else if f_rOff f \<ge> Size fi then (([], Some EOF), h, f)
          else
            (case fd_at h (f_fd f) of
               None \<Rightarrow> (([], Some Panic), h, f)
             | Some d \<Rightarrow>
                 (case bytes d of
                    (Inl err, d') \<Rightarrow> (([], Some err), set_fd h (f_fd f) d', f)
                  | (Inr bs, d') \<Rightarrow>
                      if f_rOff f < 0 \<or> f_rOff f > int (length bs)
                      then (([], Some Panic), set_fd h (f_fd f) d', f)
                      else
                        (let out = take len_b (drop (nat (f_rOff f)) bs) in
                         ((out, None), set_fd h (f_fd f) d',
                          f\<lparr>f_rOff := f_rOff f + int (length out)\<rparr>)))))"

definition File_ReadAt :: "heap \<Rightarrow> File \<Rightarrow> nat \<Rightarrow> int \<Rightarrow> (byte list \<times> error option) \<times> heap" where
  "File_ReadAt h f len_b off =
     (case checkRead h f ''readAt'' of
        Inl err \<Rightarrow> (([], Some err), h)
      | Inr fi \<Rightarrow>
          if len_b = 0 then (([], None), h)
          else
            (case fd_at h (f_fd f) of
               None \<Rightarrow> (([], Some Panic), h)
             | Some d \<Rightarrow>
                 (case bytes d of
                    (Inl err, d') \<Rightarrow> (([], Some err), set_fd h (f_fd f) d')
                  | (Inr bs, d') \<Rightarrow>
                      if off < 0 \<or> off > int (length bs)
                      then (([], Some Panic), set_fd h (f_fd f) d')
                      else
                        (let out = take len_b (drop (nat off) bs) in
                         if length out < len_b
                         then ((out, Some EOF), set_fd h (f_fd f) d')
                         else ((out, None), set_fd h (f_fd f) d')))))"

text \<open>
  \<open>make([]byte, c)\<close> panics for a negative length and for one above the largest
  allocation of the runtime, which is 2^48 bytes on amd64; an allocation within
  this bound is taken to succeed.
\<close>

definition maxAlloc :: int where
  "maxAlloc = 2 ^ 48"

text \<open>
  \<open>File.grow\<close>, on the \<open>fd\<close> of the handle; \<open>n\<close> is a Go int, \<open>len(p)\<close> in \<open>Write\<close>. The
  sums and differences are those of int, which wrap. The new buffer is zeroed and
  receives the old one by \<open>copy\<close>.
\<close>

definition grow :: "fd \<Rightarrow> int \<Rightarrow> error + fd" where
  "grow d n =
     (let currentCap = int (length (fd_data d)) in
      if to_int64 (int (length (fd_data d)) + n) \<ge> currentCap then
        (let c = int_of_float (growth_trunc (to_int64 (currentCap + n))) in
         if c > to_int64 (to_int64 (MaxContentLen - c) - n) then Inl ErrTooLarge
         else if c < 0 \<or> maxAlloc < c then Inl Panic
         else Inr (d\<lparr>fd_data := copy_bytes (replicate (nat c) 0) (fd_data d)\<rparr>))
      else Inr d)"

text \<open>
  \<open>File.Write\<close>: the write lock of the \<open>fd\<close> is never granted while read locks are
  held. The Go result is the count with the error. When \<open>SetModTime\<close> fails the bytes
  are already copied and the write offset advanced.
\<close>

definition File_Write :: "heap \<Rightarrow> File \<Rightarrow> byte list \<Rightarrow> (nat \<times> error option) \<times> heap \<times> File" where
  "File_Write h f p =
     (case checkWrite h f ''write'' of
        Inl err \<Rightarrow> ((0, Some err), h, f)
      | Inr fi \<Rightarrow>
          (case fd_at h (f_fd f) of
             None \<Rightarrow> ((0, Some Panic), h, f)
           | Some d \<Rightarrow>
               if fd_readers d > 0 then ((0, Some Blocked), h, f)
               else
                 (case grow d (int (length p)) of
                    Inl err \<Rightarrow> ((0, Some err), h, f)
                  | Inr d1 \<Rightarrow>
                      if f_wOff f < 0 \<or> f_wOff f > int (length (fd_data d1))
                      then ((0, Some Panic), set_fd h (f_fd f) d1, f)
                      else
                        (let w = nat (f_wOff f);
                             n = min (length (fd_data d1) - w) (length p);
                             d2 = d1\<lparr>fd_data := take w (fd_data d1)
                                    @ copy_bytes (drop w (fd_data d1)) p\<rparr>;
                             f' = f\<lparr>f_wOff := f_wOff f + int n\<rparr>;
                             (now, h1) = time_Now h
                         in case SetModTime (fd_entry d2) now of
                              Inl err \<Rightarrow> ((n, Some err), set_fd h1 (f_fd f) d2, f')
                            | Inr e \<Rightarrow>
                                ((n, None),
                                 set_fd h1 (f_fd f)
                                   (d2\<lparr>fd_entry := SetSize e (to_uint64 (f_wOff f'))\<rparr>),
                                 f')))))"

text \<open>
  \<open>File.Seek\<close>, with \<open>io.SeekStart\<close> = 0, \<open>io.SeekCurrent\<close> = 1 and \<open>io.SeekEnd\<close> = 2; the
  sums are those of int64, which wrap.
\<close>

definition File_Seek :: "heap \<Rightarrow> File \<Rightarrow> int \<Rightarrow> int \<Rightarrow> (error + int) \<times> File" where
  "File_Seek h f off whence =
     (case checkRead h f ''seek'' of
        Inl err \<Rightarrow> (Inl err, f)
      | Inr fi \<Rightarrow>
          if whence \<noteq> 0 \<and> whence \<noteq> 1 \<and> whence \<noteq> 2
          then (Inl (Wrap ''memfs_file'' (PathError ''seek'' (Name fi) ErrInvalidWhence)), f)
          else
            (let abs = (if whence = 0 then off
                        else if whence = 1 then to_int64 (f_rOff f + off)
                        else to_int64 (Size fi + off))
             in if abs < 0
                then (Inl (Wrap ''memfs_file'' (PathError ''seek'' (Name fi) ErrNegativePosition)), f)
                else (Inr abs, f\<lparr>f_rOff := abs\<rparr>)))"

subsection \<open>The trie of a directory\<close>

text \<open>
  The trie is the one of package \<open>trie\<close> of collection-go, a library outside this
  repository; here is what package memfs meets of it. \<open>Entry\<close> removes the white space
  around the key it is given and looks the result up among the keys held, with the
  error \<open>ErrCollectionEmpty\<close> for a trie that holds nothing and \<open>ErrNotFound\<close> for a key
  that is not held. \<open>AddEntry\<close> stores the key as it is given; it refuses a key of
  more than 97 bytes or with a byte that is not printable ASCII, and a key that is
  held already.
\<close>

definition key_ok :: "string \<Rightarrow> bool" where
  "key_ok k =
     (length k \<le> 97 \<and> list_all (\<lambda>c. 32 \<le> (of_char c :: nat) \<and> (of_char c :: nat) \<le> 126) k)"

definition Trie_Entry :: "(string \<times> data_ref) list \<Rightarrow> string \<Rightarrow> error + data_ref" where
  "Trie_Entry t key =
     (if t = [] then Inl ErrCollectionEmpty
      else (case map_of t (TrimSpace key) of
              None \<Rightarrow> Inl ErrNotFound
            | Some e \<Rightarrow> Inr e))"

definition Trie_AddEntry ::
    "(string \<times> data_ref) list \<Rightarrow> string \<Rightarrow> data_ref \<Rightarrow> error + (string \<times> data_ref) list" where
  "Trie_AddEntry t key e =
     (if \<not> key_ok key then Inl ErrKeyRejected
      else if map_of t key \<noteq> None then Inl ErrKeyExists
      else Inr (t @ [(key, e)]))"

subsection \<open>MemFS: lookup\<close>

text \<open>
  \<open>entry\<close>: the two errors of the trie for a key that is not there become
  \<open>ErrNotExist\<close>, any other is passed on. Every value in a trie is an \<open>fsEntry\<close>.
\<close>

definition entry :: "heap \<Rightarrow> nat \<Rightarrow> string \<Rightarrow> error + data_ref" where
  "entry h mfs name =
     (case dir_at h mfs of
        None \<Rightarrow> Inl Panic
      | Some d \<Rightarrow>
          (case Trie_Entry (m_entries d) name of
             Inl err \<Rightarrow>
               if errors_Is err ErrCollectionEmpty \<or> errors_Is err ErrNotFound
               then Inl ErrNotExist
               else Inl err
           | Inr e \<Rightarrow> Inr e))"

text \<open>The \<open>entry\<close> field of an \<open>fsEntry\<close>: the entry of the object its data points to.\<close>

definition fsEntry_entry :: "heap \<Rightarrow> data_ref \<Rightarrow> Entry option" where
  "fsEntry_entry h e =
     (case e of
        FdRef k \<Rightarrow> map_option fd_entry (fd_at h k)
      | DirRef m \<Rightarrow> map_option m_entry (dir_at h m))"

text \<open>\<open>entries.AddEntry\<close> on the trie of a directory; the key is the path of the entry.\<close>

definition AddEntry :: "heap \<Rightarrow> nat \<Rightarrow> string \<Rightarrow> data_ref \<Rightarrow> error option \<times> heap" where
  "AddEntry h mfs key e =
     (case dir_at h mfs of
        None \<Rightarrow> (Some Panic, h)
      | Some d \<Rightarrow>
          (case Trie_AddEntry (m_entries d) key e of
             Inl err \<Rightarrow> (Some err, h)
           | Inr t \<Rightarrow> (None, set_dir h mfs (d\<lparr>m_entries := t\<rparr>))))"

lemma length_trim_runes: "length (trim_runes t2 t3 s) \<le> length s"
  by (induction t2 t3 s rule: trim_runes.induct) auto

lemma length_TrimSpace: "length (TrimSpace s) \<le> length s"
proof -
  have "length (TrimSpace s) \<le> length (rev (trim_runes space2 space3 s))"
    unfolding TrimSpace_def length_rev
    using length_trim_runes [of "map rev space2" "map rev space3" "rev (trim_runes space2 space3 s)"]
    by simp
  also have "\<dots> \<le> length s"
    by (simp add: length_trim_runes)
  finally show ?thesis .
qed

lemma Split_not_Nil: "Split s \<noteq> []"
  by (induction s) (auto split: list.splits)

lemma length_Join_Cons:
  "length (Join (y # ys)) = length y + (if ys = [] then 0 else Suc (length (Join ys)))"
  by (cases ys) auto

lemma length_Join_Split_eq: "length (Join (Split s)) = length s"
proof (induction s)
  case Nil
  then show ?case by simp
next
  case (Cons c cs)
  obtain x xs where sp: "Split cs = x # xs"
    using Split_not_Nil [of cs] by (cases "Split cs") auto
  show ?case
    using Cons.IH by (simp add: sp length_Join_Cons)
qed

lemma length_Join_filter: "length (Join (filter P ys)) \<le> length (Join ys)"
proof (induction ys)
  case Nil
  then show ?case by simp
next
  case (Cons y ys)
  then show ?case
    by (cases "filter P ys = []") (auto simp: length_Join_Cons)
qed

lemma length_Join_Split: "length (Join (filter (\<lambda>x. x \<noteq> []) (Split s))) \<le> length s"
  using length_Join_filter [of "\<lambda>x. x \<noteq> []" "Split s"] by (simp add: length_Join_Split_eq)

lemma length_Join_tl: "1 < length n \<Longrightarrow> length (Join (tl n)) < length (Join n)"
  by (cases n rule: Join.cases) auto

lemma SplitPath_tl_shorter:
  assumes "SplitPath name = Inr n" and "1 < length n"
  shows "length (Join (tl n)) < length name"
proof -
  obtain path where cp: "CleanPath name = (path, None)"
    and n: "n = filter (\<lambda>s. s \<noteq> []) (Split path)"
    using assms(1) by (auto simp: SplitPath_def split: prod.splits option.splits)
  have "length path \<le> length (TrimSpace name)"
    using cp by (auto simp: CleanPath_def Let_def split: if_splits)
  then have "length path \<le> length name"
    using length_TrimSpace [of name] by simp
  moreover have "length (Join n) \<le> length path"
    unfolding n by (rule length_Join_Split)
  ultimately show ?thesis
    using length_Join_tl [OF assms(2)] by simp
qed

text \<open>
  \<open>find\<close>: the first segment is looked up in the directory and the search goes on
  below it with the other segments joined again, which cleans them once more.
\<close>

function find_fs :: "heap \<Rightarrow> nat \<Rightarrow> string \<Rightarrow> error + data_ref" where
  "find_fs h mfs name =
     (if name = ''.'' then entry h mfs name
      else
        (case SplitPath name of
           Inl err \<Rightarrow> Inl err
         | Inr n \<Rightarrow>
             if length n > 1 then
               (case entry h mfs (hd n) of
                  Inl err \<Rightarrow> Inl err
                | Inr e \<Rightarrow>
                    (case fsEntry_entry h e of
                       None \<Rightarrow> Inl Panic
                     | Some ee \<Rightarrow>
                         if IsDir ee then
                           (case e of
                              DirRef m' \<Rightarrow> find_fs h m' (Join (tl n))
                            | FdRef k \<Rightarrow> Inl Panic)
                         else Inl ErrNotExist))
             else entry h mfs name))"
  by pat_completeness auto
termination
  by (relation "measure (\<lambda>(h, mfs, name). length name)") (auto dest: SplitPath_tl_shorter)

declare find_fs.simps [simp del]

definition stat :: "heap \<Rightarrow> nat \<Rightarrow> string \<Rightarrow> error + data_ref" where
  "stat h mfs name0 =
     (case CleanPath name0 of
        (name, Some err) \<Rightarrow> Inl err
      | (name, None) \<Rightarrow> find_fs h mfs name)"

subsection \<open>MemFS: creating files and directories\<close>

definition newfd :: "heap \<Rightarrow> nat \<Rightarrow> string \<Rightarrow> int \<Rightarrow> 32 word \<Rightarrow> (error + nat) \<times> heap" where
  "newfd h dir name flag mode =
     (case entry h dir name of
        Inl err \<Rightarrow>
          if errors_Is err ErrNotExist \<and> flag AND O_CREATE \<noteq> 0 then
            (let (now, h1) = time_Now h in
             case NewAttributes (WithMode mode Attribute0) now of
               Inl err1 \<Rightarrow> (Inl err1, h1)
             | Inr attrs \<Rightarrow>
                 (case NewEntry name None attrs of
                    Inl err2 \<Rightarrow> (Inl err2, h1)
                  | Inr e \<Rightarrow>
                      (let k = length (h_fds h1);
                           h2 = h1\<lparr>h_fds := h_fds h1 @
                                  [\<lparr>fd_data = [], fd_dir = dir, fd_entry = e, fd_readers = 0\<rparr>]\<rparr>
                       in case AddEntry h2 dir (e_path e) (FdRef k) of
                            (Some err3, h3) \<Rightarrow> (Inl err3, h3)
                          | (None, h3) \<Rightarrow> (Inr k, h3))))
          else (Inl err, h)
      | Inr e \<Rightarrow>
          (case e of
             FdRef k \<Rightarrow> (Inr k, h)
           | DirRef m' \<Rightarrow>
               (case entry h m' ''.'' of
                  Inl err \<Rightarrow> (Inl err, h)
                | Inr e' \<Rightarrow>
                    (case e' of
                       FdRef k \<Rightarrow> (Inr k, h)
                     | DirRef m'' \<Rightarrow> (Inl Panic, h)))))"

definition newDir :: "heap \<Rightarrow> string \<Rightarrow> 32 word \<Rightarrow> (string \<Rightarrow> bool) option \<Rightarrow> (error + nat) \<times> heap" where
  "newDir h name mode v =
     (let (now, h1) = time_Now h in
      case NewAttributes (WithMode (mode OR ModeDir) Attribute0) now of
        Inl err \<Rightarrow> (Inl err, h1)
      | Inr attrs \<Rightarrow>
          (case NewEntry name v attrs of
             Inl err \<Rightarrow> (Inl err, h1)
           | Inr dir \<Rightarrow>
               (let m = length (h_dirs h1);
                    h2 = h1\<lparr>h_dirs := h_dirs h1 @
                           [\<lparr>m_closed = False, m_entry = dir, m_entries = []\<rparr>]\<rparr>
                in case newfd h2 m ''.'' O_CREATE (a_mode (e_attrs dir)) of
                     (Inl err, h3) \<Rightarrow> (Inl err, h3)
                   | (Inr k, h3) \<Rightarrow> (Inr m, h3))))"

definition modePerm :: "32 word" where
  "modePerm = 436"

text \<open>\<open>New\<close>: the root directory, named by the separator, with a validator that accepts every path.\<close>

definition New :: "heap \<Rightarrow> (error + nat) \<times> heap" where
  "New h = newDir h ''/'' modePerm (Some (\<lambda>p. True))"

definition mkdir :: "heap \<Rightarrow> nat \<Rightarrow> string \<Rightarrow> 32 word \<Rightarrow> (error + nat) \<times> heap" where
  "mkdir h mfs0 name mode =
     (if name = ''.'' then (Inl (PathError ''mkdir'' name ErrInvalid), h)
      else
        (case SplitPath name of
           Inl err \<Rightarrow> (Inl err, h)
         | Inr p \<Rightarrow>
             (case (if length p > 1 then
                      (case stat h mfs0 (Dir name) of
                         Inl err \<Rightarrow> Inl (PathError ''mkdir'' (Dir name) ErrInvalid)
                       | Inr e \<Rightarrow> (case e of DirRef m' \<Rightarrow> Inr m' | FdRef k \<Rightarrow> Inl Panic))
                    else Inr mfs0) of
                Inl err \<Rightarrow> (Inl err, h)
              | Inr mfs \<Rightarrow>
                  (case dir_at h mfs of
                     None \<Rightarrow> (Inl Panic, h)
                   | Some d \<Rightarrow>
                       if \<not> IsDir (m_entry d)
                       then (Inl (PathError ''mkdir'' (Dir name) ErrNotDir), h)
                       else
                         (case entry h mfs (Base name) of
                            Inr e \<Rightarrow> (Inl (PathError ''mkdir'' name ErrExist), h)
                          | Inl err \<Rightarrow>
                              if errors_Is err ErrNotExist then
                                (case newDir h (Base name) mode None of
                                   (Inl err1, h1) \<Rightarrow> (Inl (PathError ''mkdir'' name err1), h1)
                                 | (Inr n, h1) \<Rightarrow>
                                     (case AddEntry h1 mfs (Base name) (DirRef n) of
                                        (Some err2, h2) \<Rightarrow>
                                          (Inl (PathError ''mkdir'' name err2), h2)
                                      | (None, h2) \<Rightarrow>
                                          (let (now, h3) = time_Now h2 in
                                           case SetModTime (m_entry d) now of
                                             Inl err3 \<Rightarrow> (Inl (PathError ''mkdir'' name err3), h3)
                                           | Inr e' \<Rightarrow>
                                               (case dir_at h3 mfs of
                                                  None \<Rightarrow> (Inl Panic, h3)
                                                | Some d3 \<Rightarrow>
                                                    (Inr n, set_dir h3 mfs (d3\<lparr>m_entry := e'\<rparr>))))))
                              else (Inl (PathError ''mkdir'' name err), h))))))"

fun mkdirAll_loop :: "heap \<Rightarrow> nat \<Rightarrow> 32 word \<Rightarrow> string list \<Rightarrow> (error + nat) \<times> heap" where
  "mkdirAll_loop h mfs mode [] = (Inr mfs, h)"
| "mkdirAll_loop h mfs mode (dir # ds) =
     (case stat h mfs dir of
        Inr s \<Rightarrow>
          (case s of
             DirRef m' \<Rightarrow> mkdirAll_loop h m' mode ds
           | FdRef k \<Rightarrow> (Inl Panic, h))
      | Inl err \<Rightarrow>
          if \<not> errors_Is err ErrNotExist then (Inl err, h)
          else
            (case mkdir h mfs dir mode of
               (Inl err1, h1) \<Rightarrow> (Inl err1, h1)
             | (Inr d, h1) \<Rightarrow> mkdirAll_loop h1 d mode ds))"

definition mkdirAll :: "heap \<Rightarrow> nat \<Rightarrow> string \<Rightarrow> 32 word \<Rightarrow> (error + nat) \<times> heap" where
  "mkdirAll h mfs path mode =
     (case SplitPath path of
        Inl err \<Rightarrow> (Inl err, h)
      | Inr p \<Rightarrow> mkdirAll_loop h mfs mode p)"

subsection \<open>MemFS: open and create\<close>

definition create :: "heap \<Rightarrow> nat \<Rightarrow> string \<Rightarrow> int \<Rightarrow> 32 word \<Rightarrow> (error + File) \<times> heap" where
  "create h mfs name flag mode =
     (if mode AND ModeDir \<noteq> 0 then
        (case mkdirAll h mfs name mode of
           (Inl err, h1) \<Rightarrow> (Inl err, h1)
         | (Inr dir, h1) \<Rightarrow>
             (case newfd h1 dir ''.'' flag mode of
                (Inl err, h2) \<Rightarrow> (Inl err, h2)
              | (Inr k, h2) \<Rightarrow> newFile h2 k flag))
      else
        (case SplitPath name of
           Inl err \<Rightarrow> (Inl err, h)
         | Inr p \<Rightarrow>
             if length p = 1 then
               (case newfd h mfs name flag mode of
                  (Inl err, h1) \<Rightarrow> (Inl err, h1)
                | (Inr k, h1) \<Rightarrow> newFile h1 k flag)
             else
               (case mkdirAll h mfs (Dir name) mode of
                  (Inl err, h1) \<Rightarrow> (Inl err, h1)
                | (Inr dir, h1) \<Rightarrow>
                    (case newfd h1 dir (Base name) flag mode of
                       (Inl err, h2) \<Rightarrow> (Inl err, h2)
                     | (Inr k, h2) \<Rightarrow> newFile h2 k flag))))"

text \<open>
  \<open>MemFS.open\<close>. When \<open>stat\<close> succeeds its entry is not nil and the method returns
  from the type switch; the statements after that switch are never reached.
\<close>

definition MemFS_open :: "heap \<Rightarrow> nat \<Rightarrow> string \<Rightarrow> string \<Rightarrow> int \<Rightarrow> 32 word \<Rightarrow> (error + File) \<times> heap" where
  "MemFS_open h m op' name0 flag mode =
     (case CleanPath name0 of
        (name, Some err) \<Rightarrow> (Inl (Wrap ''memfs'' (PathError op' name err)), h)
      | (name, None) \<Rightarrow>
          (case stat h m name of
             Inl err \<Rightarrow>
               if errors_Is err ErrNotExist \<and> flag AND O_CREATE \<noteq> 0
               then create h m name flag mode
               else (Inl (Wrap ''memfs'' (PathError op' name err)), h)
           | Inr s \<Rightarrow>
               (case s of
                  FdRef k \<Rightarrow>
                    (case fd_at h k of
                       None \<Rightarrow> (Inl Panic, h)
                     | Some d \<Rightarrow>
                         if \<not> IsDir (fd_entry d) then newFile h k flag
                         else newFile h k O_RDONLY)
                | DirRef m' \<Rightarrow>
                    (case dir_at h m' of
                       None \<Rightarrow> (Inl Panic, h)
                     | Some mfs \<Rightarrow>
                         (case newfd h m' ''.'' O_RDONLY (a_mode (e_attrs (m_entry mfs))) of
                            (Inl err, h1) \<Rightarrow> (Inl (Wrap ''memfs'' (PathError op' name err)), h1)
                          | (Inr k, h1) \<Rightarrow> newFile h1 k O_RDONLY)))))"

definition MemFS_Open :: "heap \<Rightarrow> nat \<Rightarrow> string \<Rightarrow> (error + File) \<times> heap" where
  "MemFS_Open h m name = MemFS_open h m ''open'' name O_RDONLY 0"

definition MemFS_OpenFile :: "heap \<Rightarrow> nat \<Rightarrow> string \<Rightarrow> int \<Rightarrow> 32 word \<Rightarrow> (error + File) \<times> heap" where
  "MemFS_OpenFile h m name flag mode = MemFS_open h m ''openFile'' name flag mode"

definition MemFS_Create :: "heap \<Rightarrow> nat \<Rightarrow> string \<Rightarrow> (error + File) \<times> heap" where
  "MemFS_Create h m name =
     MemFS_open h m ''create'' name (O_RDWR OR O_CREATE OR O_TRUNC) modePerm"

subsection \<open>MemFS: the facade\<close>

definition MemFS_MkdirAll :: "heap \<Rightarrow> nat \<Rightarrow> string \<Rightarrow> 32 word \<Rightarrow> error option \<times> heap" where
  "MemFS_MkdirAll h m path0 mode =
     (case CleanPath path0 of
        (path, Some err) \<Rightarrow> (Some (Wrap ''memfs'' (PathError ''mkdirAll'' path err)), h)
      | (path, None) \<Rightarrow>
          (case mkdirAll h m path mode of
             (Inl err, h1) \<Rightarrow> (Some (Wrap ''memfs'' (PathError ''mkdirAll'' path err)), h1)
           | (Inr d, h1) \<Rightarrow> (None, h1)))"

text \<open>\<open>MemFS.Stat\<close>: the entry found, which \<open>fsEntry.Stat\<close> returns as the file info.\<close>

definition MemFS_Stat :: "heap \<Rightarrow> nat \<Rightarrow> string \<Rightarrow> error + Entry" where
  "MemFS_Stat h m name =
     (case stat h m name of
        Inl err \<Rightarrow> Inl (Wrap ''memfs'' (PathError ''stat'' name err))
      | Inr e \<Rightarrow>
          (case fsEntry_entry h e of
             None \<Rightarrow> Inl ErrInvalid
           | Some fi \<Rightarrow> Inr fi))"

definition MemFS_Remove :: "heap \<Rightarrow> nat \<Rightarrow> string \<Rightarrow> error option \<times> heap" where
  "MemFS_Remove h m name =
     (Some (Wrap ''memfs'' (PathError ''remove'' name ErrNotImplemented)), h)"

definition MemFS_RemoveAll :: "heap \<Rightarrow> nat \<Rightarrow> string \<Rightarrow> error option \<times> heap" where
  "MemFS_RemoveAll h m path =
     (Some (Wrap ''memfs'' (PathError ''removeAll'' path ErrNotImplemented)), h)"

definition MemFS_Rename :: "heap \<Rightarrow> nat \<Rightarrow> string \<Rightarrow> string \<Rightarrow> error option \<times> heap" where
  "MemFS_Rename h m oldpath newpath =
     (Some (Wrap ''memfs'' (PathError ''rename'' [] ErrNotImplemented)), h)"

text \<open>
  \<open>io.ReadAll\<close> calls \<open>Read\<close> with the spare capacity of its buffer, which is never
  empty (512 bytes here), appends what was read and stops at the first error; the
  end of the data is not an error of its own. A \<open>Read\<close> that returns no byte and no
  error is called again in the same state, for ever.
\<close>

lemma fd_at_set_fd:
  "fd_at h k = Some d \<Longrightarrow> fd_at (set_fd h k d') k' = (if k' = k then Some d' else fd_at h k')"
  by (auto simp: fd_at_def set_fd_def split: if_splits)

lemma dir_at_set_fd: "dir_at (set_fd h k d) m = dir_at h m"
  by (simp add: dir_at_def set_fd_def)

lemma File_Read_advances:
  assumes "File_Read h f n = ((bs, None), h', f')" and "bs \<noteq> []"
  shows "\<exists>fi. checkRead h f ''read'' = Inr fi \<and> checkRead h' f' ''read'' = Inr fi
           \<and> f_rOff f < Size fi \<and> f_rOff f' = f_rOff f + int (length bs)"
proof -
  obtain fi where fi: "checkRead h f ''read'' = Inr fi"
    using assms by (cases "checkRead h f ''read''") (auto simp: File_Read_def)
  obtain d where d: "fd_at h (f_fd f) = Some d"
    using assms fi by (cases "fd_at h (f_fd f)") (auto simp: File_Read_def split: if_splits)
  have rest: "f_rOff f < Size fi" "f_rOff f' = f_rOff f + int (length bs)"
    "h' = set_fd h (f_fd f) (d\<lparr>fd_readers := fd_readers d + 2\<rparr>)"
    "f_fd f' = f_fd f" "f_closed f' = f_closed f" "f_flag f' = f_flag f"
    using assms fi d
    by (auto simp: File_Read_def bytes_def Let_def split: if_splits sum.splits prod.splits)
  have "File_Stat h' f' = File_Stat h f"
    unfolding File_Stat_def rest(3,4,5) by (simp add: fd_at_set_fd [OF d] dir_at_set_fd d)
  then have "checkRead h' f' ''read'' = checkRead h f ''read''"
    using rest(6) by (auto simp: checkRead_def checkRegularFile_def split: sum.splits)
  then show ?thesis
    using fi rest(1,2) by simp
qed

function ReadAll_loop :: "heap \<Rightarrow> File \<Rightarrow> byte list \<Rightarrow> (error + byte list) \<times> heap \<times> File" where
  "ReadAll_loop h f b =
     (case File_Read h f 512 of
        ((bs, Some err), h', f') \<Rightarrow>
          if err = EOF then (Inr (b @ bs), h', f') else (Inl err, h', f')
      | ((bs, None), h', f') \<Rightarrow>
          if bs = [] then (Inl Blocked, h', f')
          else ReadAll_loop h' f' (b @ bs))"
  by pat_completeness auto
termination
proof (relation "measure (\<lambda>(h, f, b).
    case checkRead h f ''read'' of Inl err \<Rightarrow> 0 | Inr fi \<Rightarrow> nat (Size fi - f_rOff f))", goal_cases)
  case 1
  show ?case by simp
next
  case (2 h f b x1 x2 bs e h' f')
  then have "File_Read h f 512 = ((bs, None), h', f')"
    by simp
  from File_Read_advances [OF this \<open>bs \<noteq> []\<close>]
  show ?case
    using \<open>bs \<noteq> []\<close> by auto
qed

declare ReadAll_loop.simps [simp del]

text \<open>\<open>ReadFile\<close> and \<open>WriteFile\<close>; the deferred \<open>Close\<close> changes only the handle, which is dropped.\<close>

definition MemFS_ReadFile :: "heap \<Rightarrow> nat \<Rightarrow> string \<Rightarrow> (error + byte list) \<times> heap" where
  "MemFS_ReadFile h m name =
     (case MemFS_Open h m name of
        (Inl err, h1) \<Rightarrow> (Inl err, h1)
      | (Inr f, h1) \<Rightarrow>
          (case ReadAll_loop h1 f [] of
             (Inl err, h2, f2) \<Rightarrow> (Inl (Wrap ''memfs'' (PathError ''readFile'' name err)), h2)
           | (Inr b, h2, f2) \<Rightarrow> (Inr b, h2)))"

definition MemFS_WriteFile :: "heap \<Rightarrow> nat \<Rightarrow> string \<Rightarrow> byte list \<Rightarrow> 32 word \<Rightarrow> error option \<times> heap" where
  "MemFS_WriteFile h m name data mode =
     (case MemFS_open h m ''writeFile'' name (O_RDWR OR O_CREATE OR O_TRUNC) mode of
        (Inl err, h1) \<Rightarrow> (Some err, h1)
      | (Inr f, h1) \<Rightarrow>
          (case File_Write h1 f data of
             ((n, Some err), h2, f2) \<Rightarrow> (Some err, h2)
           | ((n, None), h2, f2) \<Rightarrow> (None, h2)))"

subsection \<open>Notions of the properties\<close>

text \<open>
  The states used as concrete inputs: an empty heap whose clock reads 1000, 1001, ...;
  the file system \<open>New\<close> makes on it; and that file system after
  \<open>WriteFile("f", "hello", 0664)\<close>.
\<close>

definition heap0 :: heap where
  "heap0 = \<lparr>h_fds = [], h_dirs = [], h_clock = (\<lambda>n. 1000 + int n), h_ticks = 0\<rparr>"

definition hello :: "byte list" where
  "hello = [104, 101, 108, 108, 111]"

definition fs_new :: heap where
  "fs_new = snd (New heap0)"

definition fs_hello :: heap where
  "fs_hello = snd (MemFS_WriteFile fs_new 0 ''f'' hello modePerm)"

text \<open>A handle on a regular file: its \<open>fd\<close> is not the dot of a directory and its mode has no directory bit.\<close>

definition regular_handle :: "heap \<Rightarrow> File \<Rightarrow> bool" where
  "regular_handle h f =
     (case fd_at h (f_fd f) of
        None \<Rightarrow> False
      | Some d \<Rightarrow> Name (fd_entry d) \<noteq> ''.'' \<and> \<not> IsDir (fd_entry d))"

text \<open>The operations on a handle, run one after the other on a heap and the handle.\<close>

datatype file_op = OpClose | OpRead nat | OpReadAt nat int | OpWrite "byte list" | OpSeek int int

fun file_step :: "heap \<times> File \<Rightarrow> file_op \<Rightarrow> heap \<times> File" where
  "file_step (h, f) OpClose = (h, snd (File_Close f))"
| "file_step (h, f) (OpRead n) = snd (File_Read h f n)"
| "file_step (h, f) (OpReadAt n off) = (snd (File_ReadAt h f n off), f)"
| "file_step (h, f) (OpWrite p) = snd (File_Write h f p)"
| "file_step (h, f) (OpSeek off whence) = (h, snd (File_Seek h f off whence))"

text \<open>The setters of an entry; a \<open>SetModTime\<close> that fails leaves the entry as it is.\<close>

datatype entry_op = OpSetModTime time | OpSetSize int

fun entry_step :: "Entry \<Rightarrow> entry_op \<Rightarrow> Entry" where
  "entry_step e (OpSetModTime t) = (case SetModTime e t of Inl err \<Rightarrow> e | Inr e' \<Rightarrow> e')"
| "entry_step e (OpSetSize s) = SetSize e s"

text \<open>An entry created at 3 and last modified at 5.\<close>

definition entry5 :: Entry where
  "entry5 = \<lparr>e_attrs = Attribute0\<lparr>a_ctime := 3, a_mtime := 5\<rparr>, e_path = ''f'',
     e_pathValidator = None\<rparr>"

text \<open>The capacity the specification gives: \<open>round(1.618 \<times> (currentCapacity + n))\<close>.\<close>

definition spec_capacity :: "nat \<Rightarrow> nat \<Rightarrow> int" where
  "spec_capacity currentCapacity n = round (1.618 * real (currentCapacity + n))"

text \<open>One heap extends another: every entry found in a directory is still found there.\<close>

definition ext :: "heap \<Rightarrow> heap \<Rightarrow> bool" where
  "ext h h' = (\<forall>m k e. entry h m k = Inr e \<longrightarrow> entry h' m k = Inr e)"

text \<open>
  A segment that is a clean path of its own: not empty, without a slash, and
  returned unchanged and without error by \<open>CleanPath\<close> (so it has no white space at
  its ends). For such a segment \<open>stat\<close> is the lookup in the directory.
\<close>

definition clean_seg :: "string \<Rightarrow> bool" where
  "clean_seg d = (CleanPath d = (d, None) \<and> d \<noteq> [] \<and> CHR ''/'' \<notin> set d)"

text \<open>The segments \<open>mkdirAll\<close> walks for a path, each of them a clean path of its own.\<close>

definition clean_segments :: "string \<Rightarrow> bool" where
  "clean_segments p =
     (case SplitPath (fst (CleanPath p)) of
        Inl err \<Rightarrow> False
      | Inr segs \<Rightarrow> list_all (\<lambda>d. CleanPath d = (d, None)) segs)"

text \<open>
  Every \<open>fd\<close> named by the dot is one of a directory, as \<open>newDir\<close> makes them.
\<close>

definition wf_dots :: "heap \<Rightarrow> bool" where
  "wf_dots h = list_all (\<lambda>d. Name (fd_entry d) \<noteq> ''.'' \<or> IsDir (fd_entry d)) (h_fds h)"

text \<open>
  The lengths of Go slices are ints: \<open>n\<close> bytes, and every buffer of the heap
  with \<open>n\<close> bytes more, stay below 2^63.
\<close>

definition buffers_fit :: "heap \<Rightarrow> nat \<Rightarrow> bool" where
  "buffers_fit h n =
     (int n < 2 ^ 63 \<and> list_all (\<lambda>d. int (length (fd_data d) + n) < 2 ^ 63) (h_fds h))"

section \<open>Properties\<close>

subsection \<open>Unfolding the model on concrete inputs\<close>

lemmas path_defs = SplitPath_def CleanPath_def TrimSpace_def ValidPath_def space1_def space2_def
  space3_def cont_def Dir_def Base_def Clean_def

lemmas entry_defs = NewAttributes_def NewEntry_def validPath_def IsDir_def Name_def Size_def
  ModTime_def SetModTime_def SetSize_def to_uint64_def to_int64_def WithMode_def Attribute0_def
  ModeDir_def O_RDONLY_def O_WRONLY_def O_RDWR_def O_CREATE_def O_TRUNC_def MaxContentLen_def
  modePerm_def

lemmas heap_defs = time_Now_def fd_at_def dir_at_def set_fd_def set_dir_def entry_def
  fsEntry_entry_def AddEntry_def Trie_Entry_def Trie_AddEntry_def key_ok_def

lemmas file_defs = newFile_def File_Close_def File_Stat_def checkRegularFile_def checkRead_def
  checkWrite_def File_Read_def File_ReadAt_def grow_def File_Write_def File_Seek_def bytes_def
  copy_bytes_def grown_def f32_round_def growthFactor_num_def bitlen.simps growth_trunc_def
  int_of_float_def maxAlloc_def

lemmas memfs_defs = find_fs.simps stat_def newfd_def newDir_def New_def mkdir_def mkdirAll_def
  create_def MemFS_open_def MemFS_Open_def MemFS_OpenFile_def MemFS_Create_def
  MemFS_MkdirAll_def MemFS_Stat_def MemFS_ReadFile_def MemFS_WriteFile_def ReadAll_loop.simps

lemma fs_new_root: "fst (New heap0) = Inr 0"
  by (simp add: heap0_def path_defs entry_defs heap_defs file_defs memfs_defs)

lemma fs_hello_written: "fst (MemFS_WriteFile fs_new 0 ''f'' hello modePerm) = None"
  by (simp add: fs_new_def heap0_def hello_def path_defs entry_defs heap_defs file_defs
      memfs_defs)

lemma checkRead_regular:
  assumes "regular_handle h f" and "\<not> f_closed f" and "f_flag f \<noteq> O_WRONLY"
  shows "\<exists>d. fd_at h (f_fd f) = Some d \<and> checkRead h f op' = Inr (fd_entry d)"
  using assms
  by (auto simp: regular_handle_def checkRead_def checkRegularFile_def File_Stat_def
      split: option.splits)

subsection \<open>C5: closing a handle\<close>

lemma file_step_closed: "f_closed f \<Longrightarrow> f_closed (snd (file_step (h, f) x))"
  by (cases x)
    (auto simp: File_Close_def File_Read_def File_Write_def File_Seek_def checkRead_def
      checkWrite_def checkRegularFile_def File_Stat_def Let_def
      split: option.splits sum.splits prod.splits if_splits)

lemma file_steps_closed: "f_closed (snd s) \<Longrightarrow> f_closed (snd (foldl file_step s xs))"
proof (induction xs arbitrary: s)
  case Nil
  then show ?case by simp
next
  case (Cons x xs)
  obtain h f where s: "s = (h, f)" by (cases s)
  have "f_closed (snd (file_step s x))"
    using Cons.prems file_step_closed [of f h x] by (simp add: s)
  then show ?case
    using Cons.IH by simp
qed

text \<open>
  C5. The first \<open>Close\<close> of an open handle returns no error and leaves the handle
  closed. After that, whatever operations are run on the handle (reads, writes,
  seeks, further closes, in any heap), the handle stays closed and a \<open>Close\<close> fails
  with the error wrapping \<open>ErrClosed\<close>.
\<close>

theorem Close_first_succeeds_then_fails:
  assumes "\<not> f_closed f"
  shows "fst (File_Close f) = None \<and> f_closed (snd (File_Close f)) \<and>
    (\<forall>h xs. f_closed (snd (foldl file_step (h, snd (File_Close f)) xs)) \<and>
       fst (File_Close (snd (foldl file_step (h, snd (File_Close f)) xs)))
         = Some (Wrap ''memfs_file'' (PathError ''close'' [] ErrClosed)))"
proof -
  have c: "f_closed (snd (File_Close f))"
    by (simp add: File_Close_def)
  have "f_closed (snd (foldl file_step (h, snd (File_Close f)) xs))" for h xs
    using file_steps_closed [of "(h, snd (File_Close f))" xs] c by simp
  then show ?thesis
    using assms c by (simp add: File_Close_def)
qed

text \<open>C5 on a handle that \<open>Open\<close> returns for the file \<open>f\<close>.\<close>

theorem Close_first_succeeds_then_fails_witness:
  "case MemFS_Open fs_hello 0 ''f'' of
     (Inl err, h) \<Rightarrow> False
   | (Inr f, h) \<Rightarrow>
       \<not> f_closed f \<and> fst (File_Close f) = None \<and>
       fst (File_Close (snd (foldl file_step (h, snd (File_Close f)) [OpRead 3, OpClose])))
         = Some (Wrap ''memfs_file'' (PathError ''close'' [] ErrClosed))"
proof -
  have o: "\<exists>f h. MemFS_Open fs_hello 0 ''f'' = (Inr f, h) \<and> \<not> f_closed f"
    by (simp add: fs_hello_def fs_new_def heap0_def hello_def path_defs entry_defs heap_defs
        file_defs memfs_defs)
  then obtain f h where fh: "MemFS_Open fs_hello 0 ''f'' = (Inr f, h)" "\<not> f_closed f"
    by blast
  have "fst (File_Close f) = None"
    and "fst (File_Close (snd (foldl file_step (h, snd (File_Close f)) [OpRead 3, OpClose])))
         = Some (Wrap ''memfs_file'' (PathError ''close'' [] ErrClosed))"
    using Close_first_succeeds_then_fails [OF fh(2)] by blast+
  then show ?thesis
    using fh by (simp del: foldl_Cons foldl_Nil)
qed

subsection \<open>C8: remove, removeAll and rename\<close>

text \<open>
  C8. For every heap, directory and path, \<open>Remove\<close>, \<open>RemoveAll\<close> and \<open>Rename\<close> return
  next to the unchanged heap an error that wraps the fixed "not implemented" error;
  so \<open>ReadFile\<close> of any path gives afterwards what it gave before.
\<close>

theorem Remove_RemoveAll_Rename_not_implemented:
  "MemFS_Remove h m name = (Some (Wrap ''memfs'' (PathError ''remove'' name ErrNotImplemented)), h)
   \<and> MemFS_RemoveAll h m name
       = (Some (Wrap ''memfs'' (PathError ''removeAll'' name ErrNotImplemented)), h)
   \<and> MemFS_Rename h m name name'
       = (Some (Wrap ''memfs'' (PathError ''rename'' [] ErrNotImplemented)), h)
   \<and> errors_Is (the (fst (MemFS_Remove h m name))) ErrNotImplemented
   \<and> errors_Is (the (fst (MemFS_RemoveAll h m name))) ErrNotImplemented
   \<and> errors_Is (the (fst (MemFS_Rename h m name name'))) ErrNotImplemented
   \<and> MemFS_ReadFile (snd (MemFS_Remove h m name)) m p = MemFS_ReadFile h m p
   \<and> MemFS_ReadFile (snd (MemFS_RemoveAll h m name)) m p = MemFS_ReadFile h m p
   \<and> MemFS_ReadFile (snd (MemFS_Rename h m name name')) m p = MemFS_ReadFile h m p"
  by (simp add: MemFS_Remove_def MemFS_RemoveAll_def MemFS_Rename_def)

text \<open>Scenario E of the specification, on the file system holding \<open>f\<close>.\<close>

lemma Remove_scenario:
  "fst (MemFS_ReadFile (snd (MemFS_Remove fs_hello 0 ''f'')) 0 ''f'') = Inr hello"
  by (simp add: MemFS_Remove_def fs_hello_def fs_new_def heap0_def hello_def path_defs
      entry_defs heap_defs file_defs memfs_defs)

subsection \<open>C10: reading into an empty buffer\<close>

text \<open>
  C10, as the code has it. For every handle that is not closed, is on a regular file
  and whose flag is not \<open>O_WRONLY\<close>, \<open>Read\<close> with an empty buffer returns the count 0
  and no error, and changes neither the heap nor the handle, wherever the read
  offset stands; with the offset at or past the size, a buffer that is not empty
  gets the count 0 and \<open>EOF\<close>.
\<close>

theorem Read_empty_buffer:
  assumes "regular_handle h f" and "\<not> f_closed f" and "f_flag f \<noteq> O_WRONLY"
  shows "File_Read h f 0 = (([], None), h, f) \<and>
    (\<forall>d n. fd_at h (f_fd f) = Some d \<and> Size (fd_entry d) \<le> f_rOff f \<and> 0 < n
       \<longrightarrow> File_Read h f n = (([], Some EOF), h, f))"
proof -
  obtain d where d: "fd_at h (f_fd f) = Some d" "checkRead h f ''read'' = Inr (fd_entry d)"
    using checkRead_regular [OF assms] by blast
  show ?thesis
    using d by (simp add: File_Read_def)
qed

text \<open>C10 on a handle of the file \<open>f\<close>, of 5 bytes, with its read offset at 7.\<close>

theorem Read_empty_buffer_witness:
  "case MemFS_Open fs_hello 0 ''f'' of
     (Inl err, h) \<Rightarrow> False
   | (Inr f0, h) \<Rightarrow>
       (let f = f0\<lparr>f_rOff := 7\<rparr> in
        regular_handle h f \<and> \<not> f_closed f \<and> f_flag f \<noteq> O_WRONLY \<and>
        File_Read h f 0 = (([], None), h, f) \<and> File_Read h f 3 = (([], Some EOF), h, f))"
proof -
  have o: "\<exists>f0 h d. MemFS_Open fs_hello 0 ''f'' = (Inr f0, h) \<and> regular_handle h f0 \<and>
      \<not> f_closed f0 \<and> f_flag f0 \<noteq> O_WRONLY \<and> fd_at h (f_fd f0) = Some d \<and>
      Size (fd_entry d) \<le> 7"
    by (simp add: regular_handle_def fs_hello_def fs_new_def heap0_def hello_def path_defs
        entry_defs heap_defs file_defs memfs_defs)
  then obtain f0 h d where fh: "MemFS_Open fs_hello 0 ''f'' = (Inr f0, h)"
    and r: "regular_handle h (f0\<lparr>f_rOff := 7\<rparr>)" "\<not> f_closed (f0\<lparr>f_rOff := 7\<rparr>)"
      "f_flag (f0\<lparr>f_rOff := 7\<rparr>) \<noteq> O_WRONLY"
    and d: "fd_at h (f_fd (f0\<lparr>f_rOff := 7\<rparr>)) = Some d"
      "Size (fd_entry d) \<le> f_rOff (f0\<lparr>f_rOff := 7\<rparr>)"
    by (auto simp: regular_handle_def)
  have "File_Read h (f0\<lparr>f_rOff := 7\<rparr>) 0 = (([], None), h, f0\<lparr>f_rOff := 7\<rparr>)"
    and "File_Read h (f0\<lparr>f_rOff := 7\<rparr>) 3 = (([], Some EOF), h, f0\<lparr>f_rOff := 7\<rparr>)"
    using Read_empty_buffer [OF r] d by auto
  then show ?thesis
    using fh r by (simp add: Let_def)
qed

text \<open>
  C10 as stated fails on a write-only handle: after \<open>WriteFile("f", "hello")\<close>,
  the handle of \<open>OpenFile("f", O_WRONLY, 0)\<close> is open, not closed and on a regular
  file, and its \<open>Read\<close> with an empty buffer returns the write-only error.
\<close>

theorem Read_empty_buffer_write_only:
  "case MemFS_OpenFile fs_hello 0 ''f'' O_WRONLY 0 of
     (Inl err, h) \<Rightarrow> False
   | (Inr f, h) \<Rightarrow>
       regular_handle h f \<and> \<not> f_closed f \<and>
       fst (File_Read h f 0)
         = ([], Some (Wrap ''memfs_file'' (PathError ''read'' ''f'' ErrWriteOnly)))"
  by (simp add: regular_handle_def fs_hello_def fs_new_def heap0_def hello_def path_defs
      entry_defs heap_defs file_defs memfs_defs)

subsection \<open>C4: modification and creation times\<close>

lemma entry_step_mtime: "ModTime e \<le> ModTime (entry_step e x)"
  by (cases x) (auto simp: SetModTime_def SetSize_def ModTime_def)

lemma entry_steps_mtime: "ModTime e \<le> ModTime (foldl entry_step e xs)"
proof (induction xs arbitrary: e)
  case Nil
  then show ?case by simp
next
  case (Cons x xs)
  have "ModTime e \<le> ModTime (entry_step e x)"
    by (rule entry_step_mtime)
  also have "\<dots> \<le> ModTime (foldl entry_step (entry_step e x) xs)"
    by (rule Cons.IH)
  finally show ?case by simp
qed

text \<open>
  C4, as the code has it. \<open>SetModTime\<close> never moves the modification time backwards:
  a time that is not zero and lies before the current modification time is rejected
  with the error wrapping \<open>ErrMtimeMismatch\<close>, a later one is stored, and the zero
  time is accepted without an error and without a change. So the modification time
  never decreases along any sequence of \<open>SetModTime\<close> and \<open>SetSize\<close> calls, failed
  ones included. \<open>NewAttributes\<close> rejects a modification time that is not zero and
  lies before the creation time set by its options.
\<close>

theorem SetModTime_monotone:
  "(t \<noteq> 0 \<and> t < ModTime e \<longrightarrow> SetModTime e t = Inl (Wrap ''entry'' ErrMtimeMismatch))
   \<and> (ModTime e < t \<and> t \<noteq> 0 \<longrightarrow> (\<exists>e'. SetModTime e t = Inr e' \<and> ModTime e' = t))
   \<and> SetModTime e 0 = Inr e
   \<and> (\<forall>e'. SetModTime e t = Inr e' \<longrightarrow> ModTime e \<le> ModTime e')
   \<and> ModTime e \<le> ModTime (foldl entry_step e xs)
   \<and> (a_ctime a \<noteq> 0 \<and> a_mtime a \<noteq> 0 \<and> a_mtime a < a_ctime a
        \<longrightarrow> NewAttributes a now = Inl (Wrap ''attribute'' ErrCtimeMismatch))"
proof -
  have "ModTime e \<le> ModTime (foldl entry_step e xs)"
    by (rule entry_steps_mtime)
  then show ?thesis
    by (auto simp: SetModTime_def ModTime_def NewAttributes_def)
qed

text \<open>C4 on an entry created at 3 and last modified at 5.\<close>

theorem SetModTime_monotone_witness:
  "SetModTime entry5 4 = Inl (Wrap ''entry'' ErrMtimeMismatch)
   \<and> (\<exists>e'. SetModTime entry5 9 = Inr e' \<and> ModTime e' = 9)
   \<and> ModTime entry5 \<le> ModTime (foldl entry_step entry5 [OpSetModTime 9, OpSetModTime 4, OpSetSize 1])
   \<and> NewAttributes (Attribute0\<lparr>a_ctime := 7, a_mtime := 5\<rparr>) 1000
       = Inl (Wrap ''attribute'' ErrCtimeMismatch)"
proof -
  have m: "ModTime entry5 = 5"
    by (simp add: entry5_def ModTime_def Attribute0_def)
  have a: "a_ctime (Attribute0\<lparr>a_ctime := 7, a_mtime := 5\<rparr>) = 7"
    "a_mtime (Attribute0\<lparr>a_ctime := 7, a_mtime := 5\<rparr>) = 5"
    by (simp_all add: Attribute0_def)
  show ?thesis
    using SetModTime_monotone [of 4 entry5 "[OpSetModTime 9, OpSetModTime 4, OpSetSize 1]"
        "Attribute0\<lparr>a_ctime := 7, a_mtime := 5\<rparr>" 1000]
      SetModTime_monotone [of 9 entry5 "[]" Attribute0 0]
    unfolding m a by simp
qed

text \<open>
  C4 as stated fails: setting the zero time on an entry last modified at 5
  is an attempt to move the modification time backwards, and it is accepted without
  an error (and without a change).
\<close>

theorem SetModTime_zero_not_rejected:
  "ModTime entry5 = 5 \<and> SetModTime entry5 0 = Inr entry5"
  by (simp add: entry5_def ModTime_def SetModTime_def Attribute0_def)

text \<open>
  \<open>SetModTime\<close> does not compare with the creation time, as \<open>NewAttributes\<close> does: on
  an entry created at 1000 and not yet modified, the time 500 is stored.
\<close>

lemma SetModTime_before_ctime:
  "SetModTime \<lparr>e_attrs = Attribute0\<lparr>a_ctime := 1000\<rparr>, e_path = ''f'', e_pathValidator = None\<rparr> 500
     = Inr \<lparr>e_attrs = Attribute0\<lparr>a_ctime := 1000, a_mtime := 500\<rparr>, e_path = ''f'',
         e_pathValidator = None\<rparr>"
  by (simp add: SetModTime_def Attribute0_def)

subsection \<open>What bytes and ReadAt do in range\<close>

text \<open>With a positive size within the buffer, \<open>bytes\<close> is the prefix of that length.\<close>

lemma bytes_active_prefix:
  "0 < Size (fd_entry d) \<Longrightarrow> Size (fd_entry d) \<le> int (length (fd_data d))
     \<Longrightarrow> fst (bytes d) = Inr (take (nat (Size (fd_entry d))) (fd_data d))"
  by (simp add: bytes_def Let_def)

text \<open>
  For an offset from 0 up to the size, \<open>ReadAt\<close> copies from that offset, whatever
  the read offset of the handle, and signals \<open>EOF\<close> when it has fewer bytes than
  the buffer holds.
\<close>

lemma ReadAt_in_range:
  assumes "regular_handle h f" and "\<not> f_closed f" and "f_flag f \<noteq> O_WRONLY"
    and "fd_at h (f_fd f) = Some d" and "0 < Size (fd_entry d)"
    and "Size (fd_entry d) \<le> int (length (fd_data d))"
    and "0 \<le> off" and "off \<le> Size (fd_entry d)" and "0 < n"
  shows "fst (File_ReadAt h f n off)
     = (take n (drop (nat off) (take (nat (Size (fd_entry d))) (fd_data d))),
        if Size (fd_entry d) - off < int n then Some EOF else None)"
proof -
  define bs where "bs = take (nat (Size (fd_entry d))) (fd_data d)"
  have cr: "checkRead h f ''readAt'' = Inr (fd_entry d)"
    using checkRead_regular [OF assms(1-3)] assms(4) by auto
  have b: "bytes d = (Inr bs, d\<lparr>fd_readers := fd_readers d + 2\<rparr>)"
    using assms(5,6) by (simp add: bytes_def Let_def bs_def)
  have lbs: "int (length bs) = Size (fd_entry d)"
    using assms(5,6) by (simp add: bs_def)
  have inr: "\<not> (off < 0 \<or> int (length bs) < off)"
    using assms(7,8) lbs by simp
  have short: "length (take n (drop (nat off) bs)) < n \<longleftrightarrow> Size (fd_entry d) - off < int n"
    using assms(7,8) lbs by auto
  have "fst (File_ReadAt h f n off)
      = (take n (drop (nat off) bs), if Size (fd_entry d) - off < int n then Some EOF else None)"
    using cr b assms(4,9) inr short by (simp add: File_ReadAt_def Let_def del: length_take length_drop)
  then show ?thesis
    by (simp add: bs_def)
qed

subsection \<open>The code at the inputs where C1, C3, C6 and C7 fail\<close>

text \<open>
  C1. \<open>WriteFile("a/ f", "hello", 0664)\<close> on the new file system succeeds: \<open>create\<close>
  makes the directory \<open>a\<close> and \<open>newfd\<close> stores the file there under
  \<open>filepath.Base("a/ f") = " f"\<close>, the key with its space. \<open>ReadFile("a/ f")\<close> then
  fails: the lookup of \<open>" f"\<close> is the lookup of \<open>"f"\<close>, a key the trie does not hold.
\<close>

theorem WriteFile_ReadFile_space_after_slash:
  "case MemFS_WriteFile fs_new 0 ''a/ f'' hello modePerm of
     (Some err, h) \<Rightarrow> False
   | (None, h) \<Rightarrow>
       fst (MemFS_ReadFile h 0 ''a/ f'')
         = Inl (Wrap ''memfs'' (PathError ''open'' ''a/ f'' ErrNotExist))"
  by (simp add: fs_new_def heap0_def hello_def path_defs entry_defs heap_defs file_defs
      memfs_defs)

text \<open>
  A second \<open>WriteFile\<close> of that path fails as well: the file is not found and the
  trie refuses the key it holds. With the space before the slash the file is
  stored as \<open>a/f\<close> and found again, the lookup of \<open>"a "\<close> being that of \<open>"a"\<close>.
\<close>

lemma WriteFile_twice_space_after_slash:
  "case MemFS_WriteFile fs_new 0 ''a/ f'' hello modePerm of
     (Some err, h) \<Rightarrow> False
   | (None, h) \<Rightarrow> fst (MemFS_WriteFile h 0 ''a/ f'' hello modePerm) = Some ErrKeyExists"
  by (simp add: fs_new_def heap0_def hello_def path_defs entry_defs heap_defs file_defs
      memfs_defs)

text \<open>
  \<open>WriteFile\<close> fails for a name the trie does not store, here the two bytes of
  the letter e with an acute accent.
\<close>

lemma WriteFile_name_not_ascii:
  "fst (MemFS_WriteFile fs_new 0 [CHR 0xC3, CHR 0xA9] hello modePerm) \<noteq> None"
  by (simp add: fs_new_def heap0_def hello_def path_defs entry_defs heap_defs file_defs
      memfs_defs)

lemma WriteFile_ReadFile_space_before_slash:
  "case MemFS_WriteFile fs_new 0 ''a /f'' hello modePerm of
     (Some err, h) \<Rightarrow> False
   | (None, h) \<Rightarrow>
       fst (MemFS_ReadFile h 0 ''a /f'') = Inr hello \<and>
       fst (MemFS_ReadFile h 0 ''a/f'') = Inr hello"
  by (simp add: fs_new_def heap0_def hello_def path_defs entry_defs heap_defs file_defs
      memfs_defs)

text \<open>Scenario B of the specification: a path without such spaces is read back.\<close>

lemma WriteFile_ReadFile_scenario:
  "case MemFS_WriteFile fs_new 0 ''a/b/c/file.txt'' hello modePerm of
     (Some err, h) \<Rightarrow> False
   | (None, h) \<Rightarrow>
       fst (MemFS_ReadFile h 0 ''a/b/c/file.txt'') = Inr hello \<and>
       map_sum id Size (MemFS_Stat h 0 ''a/b/c/file.txt'') = Inr 5"
  by (simp add: fs_new_def heap0_def hello_def path_defs entry_defs heap_defs file_defs
      memfs_defs)

text \<open>
  C3. After \<open>WriteFile("f", "hello")\<close> the buffer of \<open>f\<close> has 8 bytes. Opening \<open>f\<close>
  with \<open>O_RDWR|O_TRUNC\<close> sets its size to 0 and leaves the buffer; \<open>bytes\<close> then
  returns all 8 bytes, not the empty prefix.
\<close>

theorem bytes_size_zero_whole_buffer:
  "case MemFS_OpenFile fs_hello 0 ''f'' (O_RDWR OR O_TRUNC) 0 of
     (Inl err, h) \<Rightarrow> False
   | (Inr f, h) \<Rightarrow>
       (case fd_at h (f_fd f) of
          None \<Rightarrow> False
        | Some d \<Rightarrow>
            Size (fd_entry d) = 0 \<and> fst (bytes d) = Inr (hello @ replicate 3 0))"
  by (simp add: fs_hello_def fs_new_def heap0_def hello_def path_defs entry_defs heap_defs
      file_defs memfs_defs)

text \<open>
  C6. On the file \<open>f\<close> of 5 bytes, \<open>ReadAt\<close> with a buffer of 4 bytes at offset 6
  panics (the slice \<open>bytes()[6:]\<close> of 5 bytes), and so does a negative offset;
  at offset 5 it returns no byte and \<open>EOF\<close>, at offset 3 two bytes and \<open>EOF\<close>.
\<close>

theorem ReadAt_past_end_panics:
  "case MemFS_Open fs_hello 0 ''f'' of
     (Inl err, h) \<Rightarrow> False
   | (Inr f, h) \<Rightarrow>
       fst (File_ReadAt h f 4 6) = ([], Some Panic) \<and>
       fst (File_ReadAt h f 4 (- 1)) = ([], Some Panic) \<and>
       fst (File_ReadAt h f 4 5) = ([], Some EOF) \<and>
       fst (File_ReadAt h f 4 3) = ([108, 111], Some EOF)"
  by (simp add: fs_hello_def fs_new_def heap0_def hello_def path_defs entry_defs heap_defs
      file_defs memfs_defs)

text \<open>
  C7. On the file \<open>f\<close> of 5 bytes, a handle opened with \<open>O_RDWR\<close> and no truncation
  writes 2 bytes with success; \<open>Stat("f")\<close> then gives the size 2, although 5 bytes
  were written since the last truncation, and \<open>ReadFile\<close> gives 2 bytes.
\<close>

theorem Write_second_handle_shrinks_size:
  "case MemFS_OpenFile fs_hello 0 ''f'' O_RDWR 0 of
     (Inl err, h) \<Rightarrow> False
   | (Inr f, h) \<Rightarrow>
       map_sum id Size (MemFS_Stat h 0 ''f'') = Inr 5 \<and>
       (case File_Write h f [72, 73] of
          ((n, Some err), h', f') \<Rightarrow> False
        | ((n, None), h', f') \<Rightarrow>
            n = 2 \<and> map_sum id Size (MemFS_Stat h' 0 ''f'') = Inr 2 \<and>
            fst (MemFS_ReadFile h' 0 ''f'') = Inr [72, 73])"
  by (simp add: fs_hello_def fs_new_def heap0_def hello_def path_defs entry_defs heap_defs
      file_defs memfs_defs)

subsection \<open>C2: growth of the buffer\<close>

lemma bitlen_bounds: "0 < n \<Longrightarrow> 2 ^ (bitlen n - 1) \<le> n \<and> n < 2 ^ bitlen n"
proof (induction n rule: bitlen.induct)
  case (1 n)
  show ?case
  proof (cases "n div 2 = 0")
    case True
    then have "n = 1" using "1.prems" by (cases n) auto
    then show ?thesis by (simp add: bitlen.simps)
  next
    case False
    then have ih: "2 ^ (bitlen (n div 2) - 1) \<le> n div 2" "n div 2 < 2 ^ bitlen (n div 2)"
      using "1.IH" "1.prems" by auto
    have pos: "0 < bitlen (n div 2)"
      using False by (simp add: bitlen.simps)
    have b: "bitlen n = Suc (bitlen (n div 2))"
      using "1.prems" by (simp add: bitlen.simps)
    have "2 ^ (bitlen n - 1) = 2 * 2 ^ (bitlen (n div 2) - 1)"
      using pos by (cases "bitlen (n div 2)") (auto simp: b)
    also have "\<dots> \<le> 2 * (n div 2)" using ih(1) by simp
    also have "\<dots> \<le> n" by simp
    finally have lo: "2 ^ (bitlen n - 1) \<le> n" .
    have "n < 2 * (n div 2) + 2" by presburger
    also have "\<dots> \<le> 2 * 2 ^ bitlen (n div 2)" using ih(2) by simp
    finally have "n < 2 ^ bitlen n" by (simp add: b)
    with lo show ?thesis by simp
  qed
qed

text \<open>Rounding to 24 bits loses less than one part in 2^23.\<close>

lemma f32_round_lower: "2 ^ 23 * N \<le> (2 ^ 23 + 1) * f32_round N"
proof (cases "N < 2 ^ 24")
  case True
  then show ?thesis by (simp add: f32_round_def)
next
  case False
  define s where "s = bitlen N - 24"
  define q where "q = N div 2 ^ s"
  define r where "r = N mod 2 ^ s"
  have Npos: "0 < N" using False by simp
  have bl: "2 ^ (bitlen N - 1) \<le> N" "N < 2 ^ bitlen N"
    using bitlen_bounds [OF Npos] by auto
  have "(2::nat) ^ 24 \<le> N" using False by simp
  then have "(2::nat) ^ 24 < 2 ^ bitlen N" using bl(2) by linarith
  then have b24: "24 < bitlen N"
    using power_less_imp_less_exp [of "2::nat" 24 "bitlen N"] by simp
  then have bs: "bitlen N - 1 = s + 23" by (simp add: s_def)
  have "2 ^ 23 * 2 ^ s \<le> N" using bl(1) unfolding bs by (simp add: power_add mult.commute)
  then have qlo: "2 ^ 23 \<le> q"
    unfolding q_def by (simp add: less_eq_div_iff_mult_less_eq)
  have N: "N = q * 2 ^ s + r"
    unfolding q_def r_def by (rule div_mult_mod_eq [symmetric])
  have rlt: "r < 2 ^ s" by (simp add: r_def)
  have ge: "q * 2 ^ s \<le> f32_round N"
    using False by (simp add: f32_round_def Let_def s_def [symmetric] q_def [symmetric] r_def [symmetric])
  have "2 ^ 23 * N = 2 ^ 23 * (q * 2 ^ s) + 2 ^ 23 * r" by (simp add: N algebra_simps)
  also have "\<dots> \<le> 2 ^ 23 * (q * 2 ^ s) + 2 ^ 23 * 2 ^ s" using rlt by simp
  also have "\<dots> \<le> 2 ^ 23 * (q * 2 ^ s) + q * 2 ^ s" using qlo by simp
  also have "\<dots> = (2 ^ 23 + 1) * (q * 2 ^ s)" by (simp add: algebra_simps)
  also have "\<dots> \<le> (2 ^ 23 + 1) * f32_round N" using ge by simp
  finally show ?thesis .
qed

lemma grown_ge: "k \<le> grown k"
proof -
  define a where "a = f32_round k"
  define b where "b = f32_round (growthFactor_num * a)"
  have 1: "2 ^ 23 * k \<le> (2 ^ 23 + 1) * a"
    unfolding a_def by (rule f32_round_lower)
  have 2: "2 ^ 23 * (growthFactor_num * a) \<le> (2 ^ 23 + 1) * b"
    unfolding b_def by (rule f32_round_lower)
  have "(2 ^ 23 + 1) * (2 ^ 23 + 1) * (2 ^ 23 * k) \<le> (2 ^ 23 + 1) * (2 ^ 23 + 1) * ((2 ^ 23 + 1) * a)"
    using 1 by (rule mult_le_mono2)
  also have "\<dots> \<le> (2 ^ 23 + 1) * (2 ^ 23 * (growthFactor_num * a))"
    by (simp add: growthFactor_num_def)
  also have "\<dots> \<le> (2 ^ 23 + 1) * ((2 ^ 23 + 1) * b)"
    using 2 by (rule mult_le_mono2)
  finally have "2 ^ 23 * k \<le> b"
    by simp
  then have "k \<le> b div 2 ^ 23"
    by (simp add: less_eq_div_iff_mult_less_eq mult.commute)
  then show ?thesis
    by (simp add: grown_def a_def b_def)
qed

lemma to_int64_id: "- (2 ^ 63) \<le> x \<Longrightarrow> x < 2 ^ 63 \<Longrightarrow> to_int64 x = x"
  by (simp add: to_int64_def)

text \<open>
  While the float32 product is below 2^63 no sum of \<open>grow\<close> wraps and the conversion
  to int is the truncation: \<open>grow\<close> fails by its own test, or panics in \<open>make\<close>, or
  returns the new buffer.
\<close>

lemma grow_result:
  assumes "int (grown (length (fd_data d) + n)) < 2 ^ 63"
  shows "grow d (int n) =
     (if MaxContentLen - int (grown (length (fd_data d) + n)) - int n
          < int (grown (length (fd_data d) + n))
      then Inl ErrTooLarge
      else if maxAlloc < int (grown (length (fd_data d) + n)) then Inl Panic
      else Inr (d\<lparr>fd_data := fd_data d
             @ replicate (grown (length (fd_data d) + n) - length (fd_data d)) 0\<rparr>))"
proof -
  define c where "c = grown (length (fd_data d) + n)"
  have ge: "length (fd_data d) + n \<le> c"
    unfolding c_def by (rule grown_ge)
  have c63: "int c < 2 ^ 63"
    using assms unfolding c_def .
  have k63: "int (length (fd_data d)) + int n < 2 ^ 63"
    using ge c63 by linarith
  have s: "to_int64 (int (length (fd_data d)) + int n) = int (length (fd_data d)) + int n"
    using k63 by (simp add: to_int64_id)
  have gt: "growth_trunc (int (length (fd_data d)) + int n) = int c"
    by (simp add: growth_trunc_def c_def nat_add_distrib)
  have cf: "int_of_float (int c) = int c"
    using c63 by (simp add: int_of_float_def)
  have m1: "to_int64 (MaxContentLen - int c) = MaxContentLen - int c"
    using c63 by (simp add: to_int64_id MaxContentLen_def)
  have m2: "to_int64 (MaxContentLen - int c - int n) = MaxContentLen - int c - int n"
    using c63 k63 by (simp add: to_int64_id MaxContentLen_def)
  have cp: "copy_bytes (replicate c 0) (fd_data d)
            = fd_data d @ replicate (c - length (fd_data d)) (0::byte)"
    using ge by (simp add: copy_bytes_def)
  show ?thesis
    unfolding grow_def Let_def s gt cf m1 m2 c_def [symmetric]
    by (simp add: cp)
qed

text \<open>
  From 2^63 on the product is outside the range of int: its conversion gives the
  least int, which passes the test of \<open>grow\<close>, and \<open>make\<close> panics.
\<close>

lemma grow_float_out_of_range:
  assumes "int (length (fd_data d) + n) < 2 ^ 63"
    and "2 ^ 63 \<le> int (grown (length (fd_data d) + n))"
  shows "grow d (int n) = Inl Panic"
proof -
  define c where "c = grown (length (fd_data d) + n)"
  have c63: "\<not> int c < 2 ^ 63"
    using assms(2) unfolding c_def by simp
  have k63: "int (length (fd_data d)) + int n < 2 ^ 63"
    using assms(1) by simp
  then have n63: "int n < 2 ^ 63"
    by linarith
  have s: "to_int64 (int (length (fd_data d)) + int n) = int (length (fd_data d)) + int n"
    using k63 by (simp add: to_int64_id)
  have gt: "growth_trunc (int (length (fd_data d)) + int n) = int c"
    by (simp add: growth_trunc_def c_def nat_add_distrib)
  have cf: "int_of_float (int c) = - (2 ^ 63)"
    using c63 by (simp add: int_of_float_def)
  have m1: "to_int64 (MaxContentLen - - (2 ^ 63)) = - 1"
    by (simp add: to_int64_def MaxContentLen_def)
  have m2: "to_int64 (- 1 - int n) = - 1 - int n"
    using n63 by (simp add: to_int64_id)
  show ?thesis
    unfolding grow_def Let_def s gt cf m1 m2
    using n63 by simp
qed

text \<open>
  On an empty buffer: for \<open>n\<close> = 6 \<times> 10^18 the product is beyond 2^63 and \<open>make\<close>
  panics; for \<open>n\<close> = 10^18 the product passes the test and is more than \<open>make\<close>
  allocates; for \<open>n\<close> = 3 \<times> 10^18 the new capacity would be below \<open>MaxContentLen\<close>,
  and \<open>grow\<close> fails by its test, which is not that the capacity exceeds
  \<open>MaxContentLen\<close>.
\<close>

lemma grow_huge_examples:
  "grow \<lparr>fd_data = [], fd_dir = 0, fd_entry = entry5, fd_readers = 0\<rparr> 6000000000000000000
     = Inl Panic"
  "grow \<lparr>fd_data = [], fd_dir = 0, fd_entry = entry5, fd_readers = 0\<rparr> 1000000000000000000
     = Inl Panic"
  "int (grown 3000000000000000000) < MaxContentLen \<and>
   grow \<lparr>fd_data = [], fd_dir = 0, fd_entry = entry5, fd_readers = 0\<rparr> 3000000000000000000
     = Inl ErrTooLarge"
  by (simp_all add: grow_def grown_def f32_round_def growthFactor_num_def bitlen.simps
      growth_trunc_def int_of_float_def to_int64_def MaxContentLen_def maxAlloc_def)

text \<open>
  C2, as the code has it, where the float32 product is below 2^63 and so has an
  int for its conversion. The length of the buffer is its capacity, so \<open>grow\<close>
  always reallocates. With \<open>c = int(float32(1.618) * float32(capacity + n))\<close>, the
  float32 product truncated: \<open>grow\<close> fails, with \<open>ErrTooLarge\<close>, exactly when
  \<open>c > MaxContentLen - c - n\<close>; otherwise, \<open>c\<close> being a length that \<open>make\<close> allocates,
  the new buffer has \<open>c\<close> bytes, which is at least \<open>capacity + n\<close>, starts with the
  old buffer, every byte at its offset, and is zero after it, and nothing else of
  the \<open>fd\<close> changes.
\<close>

theorem grow_capacity_and_contents:
  assumes "int (grown (length (fd_data d) + n)) < 2 ^ 63"
  shows "(grow d (int n) = Inl ErrTooLarge
      \<longleftrightarrow> MaxContentLen - int (grown (length (fd_data d) + n)) - int n
            < int (grown (length (fd_data d) + n)))
   \<and> (grow d (int n) \<noteq> Inl ErrTooLarge
        \<and> int (grown (length (fd_data d) + n)) \<le> maxAlloc \<longrightarrow>
        (\<exists>d'. grow d (int n) = Inr d'
           \<and> length (fd_data d') = grown (length (fd_data d) + n)
           \<and> length (fd_data d) + n \<le> length (fd_data d')
           \<and> take (length (fd_data d)) (fd_data d') = fd_data d
           \<and> (\<forall>i < length (fd_data d). fd_data d' ! i = fd_data d ! i)
           \<and> drop (length (fd_data d)) (fd_data d')
               = replicate (grown (length (fd_data d) + n) - length (fd_data d)) 0
           \<and> d' = d\<lparr>fd_data := fd_data d'\<rparr>))"
proof -
  define c where "c = grown (length (fd_data d) + n)"
  have ge: "length (fd_data d) + n \<le> c"
    unfolding c_def by (rule grown_ge)
  have g: "grow d (int n) =
     (if MaxContentLen - int c - int n < int c then Inl ErrTooLarge
      else if maxAlloc < int c then Inl Panic
      else Inr (d\<lparr>fd_data := fd_data d @ replicate (c - length (fd_data d)) 0\<rparr>))"
    unfolding c_def by (rule grow_result [OF assms])
  show ?thesis
    using ge unfolding g c_def [symmetric] by (simp add: nth_append)
qed

text \<open>C2 on the buffer of \<open>f\<close>, of 8 bytes, for a write of three bytes.\<close>

theorem grow_capacity_and_contents_witness:
  "case fd_at fs_hello 1 of
     None \<Rightarrow> False
   | Some d \<Rightarrow>
       fd_data d = hello @ replicate 3 0 \<and> int (grown (length (fd_data d) + 3)) < 2 ^ 63 \<and>
       grow d 3 \<noteq> Inl ErrTooLarge \<and>
       (\<exists>d'. grow d 3 = Inr d' \<and> length (fd_data d') = 17 \<and>
          take 8 (fd_data d') = hello @ replicate 3 0)"
proof -
  have "\<exists>d. fd_at fs_hello 1 = Some d \<and> fd_data d = hello @ replicate 3 0"
    by (simp add: fs_hello_def fs_new_def heap0_def hello_def path_defs entry_defs heap_defs
        file_defs memfs_defs)
  then obtain d where d: "fd_at fs_hello 1 = Some d" "fd_data d = hello @ replicate 3 0"
    by blast
  have l: "length (fd_data d) = 8"
    by (simp add: d(2) hello_def)
  have g: "grown 11 = 17"
    by (simp add: grown_def f32_round_def growthFactor_num_def bitlen.simps)
  have small: "int (grown (length (fd_data d) + 3)) < 2 ^ 63"
    by (simp add: l g)
  have "\<not> MaxContentLen - int (grown (length (fd_data d) + 3)) - int 3
          < int (grown (length (fd_data d) + 3))"
    by (simp add: l g MaxContentLen_def)
  then have ne: "grow d (int 3) \<noteq> Inl ErrTooLarge"
    using grow_capacity_and_contents [OF small] by blast
  moreover have "int (grown (length (fd_data d) + 3)) \<le> maxAlloc"
    by (simp add: l g maxAlloc_def)
  ultimately obtain d' where d': "grow d (int 3) = Inr d'"
      "length (fd_data d') = grown (length (fd_data d) + 3)"
      "take (length (fd_data d)) (fd_data d') = fd_data d"
    using grow_capacity_and_contents [OF small] by blast
  have "length (fd_data d') = 17"
    using d'(2) by (simp add: l g)
  moreover have "take 8 (fd_data d') = hello @ replicate 3 0"
    using d'(3) l by (simp add: d(2))
  ultimately show ?thesis
    using d d'(1) ne small by simp
qed

text \<open>
  C2 as stated fails: the file \<open>f\<close> holds 5 bytes in a buffer of capacity 8; for a
  write of three bytes through a handle, 5 + 3 meeting the capacity, the
  specification gives the capacity \<open>round(1.618 \<times> 11) = 18\<close>, and the write leaves 17.
\<close>

theorem grow_truncates:
  "case MemFS_OpenFile fs_hello 0 ''f'' O_RDWR 0 of
     (Inl err, h) \<Rightarrow> False
   | (Inr f, h) \<Rightarrow>
       (case fd_at h (f_fd f) of
          None \<Rightarrow> False
        | Some d \<Rightarrow>
            Size (fd_entry d) = 5 \<and> length (fd_data d) = 8 \<and> spec_capacity 8 3 = 18 \<and>
            (case File_Write h f [1, 2, 3] of
               ((n, Some err), h', f') \<Rightarrow> False
             | ((n, None), h', f') \<Rightarrow>
                 n = 3 \<and> map_option (\<lambda>d'. length (fd_data d')) (fd_at h' (f_fd f)) = Some 17))"
  by (simp add: spec_capacity_def round_def fs_hello_def fs_new_def heap0_def hello_def
      path_defs entry_defs heap_defs file_defs memfs_defs)

text \<open>
  \<open>Write\<close> takes its too-large error from \<open>grow\<close> and from nowhere else: a handle
  that passes the checks, on an \<open>fd\<close> without readers, fails so exactly when
  \<open>grow\<close> does.
\<close>

lemma Write_too_large_iff:
  assumes "regular_handle h f" and "\<not> f_closed f" and "f_flag f \<noteq> O_RDONLY"
    and "fd_at h (f_fd f) = Some d" and "fd_readers d = 0"
  shows "snd (fst (File_Write h f p)) = Some ErrTooLarge
           \<longleftrightarrow> grow d (int (length p)) = Inl ErrTooLarge"
proof -
  have "checkWrite h f ''write'' = Inr (fd_entry d)"
    using assms
    by (auto simp: regular_handle_def checkWrite_def checkRegularFile_def File_Stat_def)
  then show ?thesis
    using assms(4,5)
    by (auto simp: File_Write_def Let_def time_Now_def SetModTime_def
        split: sum.splits prod.splits if_splits)
qed

subsection \<open>Writing and reading back through handles\<close>

lemma to_int64_to_uint64: "0 \<le> x \<Longrightarrow> x < 2 ^ 63 \<Longrightarrow> to_int64 (to_uint64 x) = x"
  by (simp add: to_int64_def to_uint64_def)

lemma checkWrite_regular:
  assumes "regular_handle h f" and "\<not> f_closed f" and "f_flag f \<noteq> O_RDONLY"
  shows "\<exists>d. fd_at h (f_fd f) = Some d \<and> checkWrite h f op' = Inr (fd_entry d)"
  using assms
  by (auto simp: regular_handle_def checkWrite_def checkRegularFile_def File_Stat_def
      split: option.splits)

text \<open>
  What a successful \<open>Write\<close> does, for a handle on a regular file whose write
  offset lies in the buffer: it writes all of \<open>p\<close> at the write offset into the
  grown buffer, advances the offset by \<open>len(p)\<close> and sets the size to the new
  write offset of this handle.
\<close>

lemma Write_result:
  assumes rh: "regular_handle h f" "\<not> f_closed f" "f_flag f \<noteq> O_RDONLY"
    and d: "fd_at h (f_fd f) = Some d"
    and w: "0 \<le> f_wOff f" "f_wOff f \<le> int (length (fd_data d))"
    and fit: "int (length (fd_data d) + length p) < 2 ^ 63"
    and ok: "File_Write h f p = ((n, None), h', f')"
  defines "buf \<equiv> fd_data d @ replicate (grown (length (fd_data d) + length p) - length (fd_data d)) 0"
  shows "n = length p \<and> f' = f\<lparr>f_wOff := f_wOff f + int (length p)\<rparr> \<and> h_dirs h' = h_dirs h \<and>
    (\<exists>d'. fd_at h' (f_fd f) = Some d' \<and>
       fd_data d' = take (nat (f_wOff f)) buf @ p @ drop (nat (f_wOff f) + length p) buf \<and>
       Size (fd_entry d') = f_wOff f + int (length p) \<and>
       e_path (fd_entry d') = e_path (fd_entry d) \<and>
       a_mode (e_attrs (fd_entry d')) = a_mode (e_attrs (fd_entry d)) \<and>
       fd_readers d' = 0 \<and> fd_dir d' = fd_dir d)"
proof -
  have cw: "checkWrite h f ''write'' = Inr (fd_entry d)"
    using checkWrite_regular [OF rh] d by auto
  have nd: "\<not> IsDir (fd_entry d)"
    using rh(1) d by (simp add: regular_handle_def)
  define c where "c = grown (length (fd_data d) + length p)"
  have ge: "length (fd_data d) + length p \<le> c"
    unfolding c_def by (rule grown_ge)
  have rd: "fd_readers d = 0"
    using ok cw d by (auto simp: File_Write_def split: if_splits)
  have gok: "\<exists>d1. grow d (int (length p)) = Inr d1"
    using ok cw d rd by (auto simp: File_Write_def split: if_splits sum.splits)
  have c63: "int (grown (length (fd_data d) + length p)) < 2 ^ 63"
  proof (rule ccontr)
    assume "\<not> int (grown (length (fd_data d) + length p)) < 2 ^ 63"
    then have "grow d (int (length p)) = Inl Panic"
      using grow_float_out_of_range [OF fit] by simp
    then show False
      using gok by simp
  qed
  have small: "\<not> MaxContentLen - int c - int (length p) < int c" "\<not> maxAlloc < int c"
    using gok grow_result [OF c63] by (auto simp: c_def split: if_splits)
  have g: "grow d (int (length p)) = Inr (d\<lparr>fd_data := buf\<rparr>)"
    using small grow_result [OF c63] by (simp add: buf_def c_def)
  have lb: "length buf = c"
    using ge by (simp add: buf_def c_def)
  have wle: "nat (f_wOff f) \<le> length (fd_data d)"
    using w by simp
  have room: "length p \<le> length buf - nat (f_wOff f)"
    using ge wle lb by simp
  have cpy: "copy_bytes (drop (nat (f_wOff f)) buf) p = p @ drop (nat (f_wOff f) + length p) buf"
    using room by (simp add: copy_bytes_def add.commute)
  have sz: "to_int64 (to_uint64 (f_wOff f + int (length p))) = f_wOff f + int (length p)"
  proof (rule to_int64_to_uint64)
    show "0 \<le> f_wOff f + int (length p)" using w by simp
    have "f_wOff f + int (length p) \<le> int c" using w ge by simp
    moreover have "2 * int c \<le> MaxContentLen" using small by simp
    ultimately show "f_wOff f + int (length p) < 2 ^ 63"
      by (simp add: MaxContentLen_def)
  qed
  have wb: "\<not> (f_wOff f < 0 \<or> int (length buf) < f_wOff f)"
    using w lb ge by simp
  have mn: "min (length buf - nat (f_wOff f)) (length p) = length p"
    using room by simp
  show ?thesis
    using ok cw d rd g wb nd
    by (auto simp: File_Write_def Let_def time_Now_def cpy sz mn SetModTime_def SetSize_def
        fd_at_def set_fd_def Size_def IsDir_def
        split: if_splits sum.splits prod.splits)
qed

text \<open>
  \<open>io.ReadAll\<close> on a readable handle of a regular file returns the bytes from the
  read offset up to the size.
\<close>

lemma ReadAll_result:
  assumes "regular_handle h g" and "\<not> f_closed g" and "f_flag g \<noteq> O_WRONLY"
    and "fd_at h (f_fd g) = Some d" and "0 \<le> f_rOff g"
    and "Size (fd_entry d) \<le> int (length (fd_data d))"
  shows "fst (ReadAll_loop h g acc)
           = Inr (acc @ drop (nat (f_rOff g)) (take (nat (Size (fd_entry d))) (fd_data d)))"
  using assms
proof (induction h g acc arbitrary: d rule: ReadAll_loop.induct)
  case (1 h f b)
  have cr: "checkRead h f ''read'' = Inr (fd_entry d)"
    using checkRead_regular [OF "1.prems"(1-3)] "1.prems"(4) by auto
  show ?case
  proof (cases "Size (fd_entry d) \<le> f_rOff f")
    case True
    then have "File_Read h f 512 = (([], Some EOF), h, f)"
      using cr by (simp add: File_Read_def)
    then show ?thesis
      using True by (simp add: ReadAll_loop.simps [of h f b])
  next
    case False
    define bs where "bs = take (nat (Size (fd_entry d))) (fd_data d)"
    define out where "out = take 512 (drop (nat (f_rOff f)) bs)"
    define d' where "d' = d\<lparr>fd_readers := fd_readers d + 2\<rparr>"
    define f' where "f' = f\<lparr>f_rOff := f_rOff f + int (length out)\<rparr>"
    have lbs: "length bs = nat (Size (fd_entry d))"
      using "1.prems"(6) by (simp add: bs_def)
    have pos: "0 < Size (fd_entry d)"
      using False "1.prems"(5) by simp
    have bd: "bytes d = (Inr bs, d')"
      using pos "1.prems"(6) by (simp add: bytes_def bs_def d'_def Let_def)
    have ne: "out \<noteq> []"
      using False "1.prems"(5) lbs by (simp add: out_def)
    have rd: "File_Read h f 512 = ((out, None), set_fd h (f_fd f) d', f')"
      using cr False "1.prems"(4,5) bd lbs
      by (simp add: File_Read_def out_def f'_def Let_def)
    have p1: "regular_handle (set_fd h (f_fd f) d') f'"
      using "1.prems"(1,4)
      by (simp add: regular_handle_def fd_at_set_fd f'_def d'_def)
    have p4: "fd_at (set_fd h (f_fd f) d') (f_fd f') = Some d'"
      using "1.prems"(4) by (simp add: fd_at_set_fd f'_def)
    have ih: "fst (ReadAll_loop (set_fd h (f_fd f) d') f' (b @ out))
          = Inr ((b @ out) @ drop (nat (f_rOff f')) (take (nat (Size (fd_entry d'))) (fd_data d')))"
      using "1.IH" [OF rd [symmetric] refl refl refl ne p1 _ _ p4] "1.prems"(2,3,5,6)
      by (simp add: f'_def d'_def)
    have "out @ drop (nat (f_rOff f')) bs = drop (nat (f_rOff f)) bs"
    proof -
      have "nat (f_rOff f') = nat (f_rOff f) + length out"
        using "1.prems"(5) by (simp add: f'_def nat_add_distrib)
      then have "drop (nat (f_rOff f')) bs = drop (length out) (drop (nat (f_rOff f)) bs)"
        by (simp add: add.commute)
      moreover have "length out = min 512 (length (drop (nat (f_rOff f)) bs))"
        by (simp add: out_def)
      ultimately have "drop (nat (f_rOff f')) bs = drop 512 (drop (nat (f_rOff f)) bs)"
        by (simp add: min_def)
      then show ?thesis
        unfolding out_def by (simp only: append_take_drop_id)
    qed
    then show ?thesis
      using ih ne rd by (simp add: ReadAll_loop.simps [of h f b] bs_def d'_def)
  qed
qed

text \<open>
  So what a fresh handle writes is read back through any fresh readable handle on
  the same \<open>fd\<close>.
\<close>

lemma Write_then_ReadAll:
  assumes "regular_handle h f" and "\<not> f_closed f" and "f_flag f \<noteq> O_RDONLY" and "f_wOff f = 0"
    and "File_Write h f p = ((n, None), h', f')"
    and "f_fd g = f_fd f" and "\<not> f_closed g" and "f_flag g \<noteq> O_WRONLY" and "f_rOff g = 0"
    and d: "fd_at h (f_fd f) = Some d"
    and fit: "int (length (fd_data d) + length p) < 2 ^ 63"
  shows "fst (ReadAll_loop h' g []) = Inr p"
proof -
  define buf where "buf = fd_data d @ replicate (grown (length (fd_data d) + length p) - length (fd_data d)) 0"
  obtain d' where d': "fd_at h' (f_fd f) = Some d'"
    "fd_data d' = take (nat (f_wOff f)) buf @ p @ drop (nat (f_wOff f) + length p) buf"
    "Size (fd_entry d') = f_wOff f + int (length p)"
    "e_path (fd_entry d') = e_path (fd_entry d)"
    "a_mode (e_attrs (fd_entry d')) = a_mode (e_attrs (fd_entry d))"
    using Write_result [OF assms(1-3) d _ _ fit assms(5)] assms(4) unfolding buf_def by auto
  have rg: "regular_handle h' g"
    using assms(1,6) d d'(1,4,5) by (simp add: regular_handle_def Name_def IsDir_def)
  have sz: "Size (fd_entry d') \<le> int (length (fd_data d'))"
    using d'(2,3) assms(4) by simp
  have "fst (ReadAll_loop h' g [])
      = Inr ([] @ drop (nat (f_rOff g)) (take (nat (Size (fd_entry d'))) (fd_data d')))"
    using ReadAll_result [OF rg assms(7,8) _ _ sz] d'(1) assms(6,9) by simp
  then show ?thesis
    using d'(2,3) assms(4,9) by simp
qed

subsection \<open>C9: mkdirAll twice\<close>

lemma ext_refl: "ext h h"
  by (simp add: ext_def)

lemma ext_trans: "ext h h1 \<Longrightarrow> ext h1 h2 \<Longrightarrow> ext h h2"
  by (simp add: ext_def)

lemma Split_no_slash: "x \<in> set (Split s) \<Longrightarrow> CHR ''/'' \<notin> set x"
  by (induction s arbitrary: x) (auto split: if_splits list.splits)

lemma Split_single: "CHR ''/'' \<notin> set d \<Longrightarrow> Split d = [d]"
  by (induction d) auto

lemma SplitPath_segments:
  "SplitPath p = Inr segs \<Longrightarrow> d \<in> set segs \<Longrightarrow> d \<noteq> [] \<and> CHR ''/'' \<notin> set d"
  by (auto simp: SplitPath_def dest: Split_no_slash split: prod.splits option.splits)

lemma Base_segment: "d \<noteq> [] \<Longrightarrow> CHR ''/'' \<notin> set d \<Longrightarrow> Base d = d"
proof -
  assume d: "d \<noteq> []" "CHR ''/'' \<notin> set d"
  have 1: "dropWhile (\<lambda>c. c = CHR ''/'') (rev d) = rev d"
    using d by (cases "rev d") auto
  have 2: "takeWhile (\<lambda>c. c \<noteq> CHR ''/'') (rev d) = rev d"
    using d by (auto intro: takeWhile_eq_all_conv [THEN iffD2])
  show ?thesis
    using d by (simp add: Base_def Let_def 1 2)
qed

lemma SplitPath_clean_seg: "clean_seg d \<Longrightarrow> SplitPath d = Inr [d]"
  by (simp add: clean_seg_def SplitPath_def Split_single)

lemma stat_clean_seg: "clean_seg d \<Longrightarrow> stat h m d = entry h m d"
  by (simp add: stat_def clean_seg_def find_fs.simps [of h m d] SplitPath_def Split_single)

lemma dir_at_append: "m < length (h_dirs h) \<Longrightarrow> dir_at (h\<lparr>h_dirs := h_dirs h @ xs\<rparr>) m = dir_at h m"
  by (simp add: dir_at_def nth_append)

lemma clean_seg_TrimSpace: "clean_seg d \<Longrightarrow> TrimSpace d = d"
proof -
  assume c: "clean_seg d"
  then have cp: "CleanPath d = (d, None)"
    by (simp add: clean_seg_def)
  show ?thesis
  proof (cases "TrimSpace d \<noteq> [] \<and> last (TrimSpace d) = CHR ''/''")
    case True
    then have "butlast (TrimSpace d) = d"
      using cp by (auto simp: CleanPath_def Let_def split: if_splits)
    then have "length d < length (TrimSpace d)"
      using True by (metis diff_less length_butlast length_greater_0_conv zero_less_one)
    then show ?thesis
      using length_TrimSpace [of d] by simp
  next
    case False
    then show ?thesis
      using cp by (auto simp: CleanPath_def Let_def split: if_splits)
  qed
qed

text \<open>What a lookup that succeeds and an insertion that succeeds say of the trie.\<close>

lemma entry_Inr_iff:
  "entry h m k = Inr e
     \<longleftrightarrow> (\<exists>dd. dir_at h m = Some dd \<and> map_of (m_entries dd) (TrimSpace k) = Some e)"
  by (auto simp: entry_def Trie_Entry_def split: option.splits)

lemma AddEntry_None:
  assumes "AddEntry h m key e = (None, h')"
  shows "\<exists>dd. dir_at h m = Some dd \<and> map_of (m_entries dd) key = None
           \<and> h' = set_dir h m (dd\<lparr>m_entries := m_entries dd @ [(key, e)]\<rparr>)"
  using assms
  by (auto simp: AddEntry_def Trie_AddEntry_def split: option.splits if_splits)

lemma AddEntry_dirs:
  assumes "AddEntry h m key e = (r, h')"
  shows "length (h_dirs h') = length (h_dirs h) \<and> (\<forall>m'. m' \<noteq> m \<longrightarrow> dir_at h' m' = dir_at h m')"
  using assms
  by (auto simp: AddEntry_def Trie_AddEntry_def dir_at_def set_dir_def
      split: option.splits if_splits)

lemma dir_at_set_dir:
  "dir_at h m = Some d \<Longrightarrow> dir_at (set_dir h m d') m' = (if m' = m then Some d' else dir_at h m')"
  by (auto simp: dir_at_def set_dir_def split: if_splits)

lemma newfd_dirs:
  assumes "newfd h dir name flag mode = (res, h')"
  shows "length (h_dirs h') = length (h_dirs h) \<and> (\<forall>m. m \<noteq> dir \<longrightarrow> dir_at h' m = dir_at h m)"
proof (cases "entry h dir name")
  case (Inr e)
  then have "h' = h"
    using assms by (auto simp: newfd_def split: sum.splits data_ref.splits)
  then show ?thesis by simp
next
  case (Inl err)
  show ?thesis
  proof (cases "errors_Is err ErrNotExist \<and> flag AND O_CREATE \<noteq> 0")
    case False
    then have "h' = h"
      using assms Inl by (auto simp: newfd_def)
    then show ?thesis by simp
  next
    case True
    define h1 where "h1 = h\<lparr>h_ticks := Suc (h_ticks h)\<rparr>"
    have base: "length (h_dirs h1) = length (h_dirs h)" "\<And>m. dir_at h1 m = dir_at h m"
      by (simp_all add: h1_def dir_at_def)
    show ?thesis
    proof (cases "NewAttributes (WithMode mode Attribute0) (h_clock h (h_ticks h))")
      case a: (Inl e1)
      then have "h' = h1"
        using assms Inl True by (auto simp: newfd_def time_Now_def h1_def)
      then show ?thesis using base by simp
    next
      case a: (Inr attrs)
      show ?thesis
      proof (cases "NewEntry name None attrs")
        case ne: (Inl e2)
        then have "h' = h1"
          using assms Inl True a by (auto simp: newfd_def time_Now_def h1_def)
        then show ?thesis using base by simp
      next
        case ne: (Inr e)
        define h2 where "h2 = h1\<lparr>h_fds := h_fds h1 @
            [\<lparr>fd_data = [], fd_dir = dir, fd_entry = e, fd_readers = 0\<rparr>]\<rparr>"
        have base2: "length (h_dirs h2) = length (h_dirs h)" "\<And>m. dir_at h2 m = dir_at h m"
          by (simp_all add: h2_def h1_def dir_at_def)
        obtain r where ae: "AddEntry h2 dir (e_path e) (FdRef (length (h_fds h1))) = (r, h')"
          using assms Inl True a ne
          by (cases "AddEntry h2 dir (e_path e) (FdRef (length (h_fds h1)))")
            (auto simp: newfd_def time_Now_def h1_def h2_def Let_def split: option.splits)
        show ?thesis
          using AddEntry_dirs [OF ae] base2 by simp
      qed
    qed
  qed
qed

lemma newDir_dirs:
  assumes "newDir h name mode v = (Inr n, h')"
  shows "n = length (h_dirs h) \<and> (\<forall>m < n. dir_at h' m = dir_at h m)"
proof -
  obtain attrs dir where
    a: "NewAttributes (WithMode (mode OR ModeDir) Attribute0) (h_clock h (h_ticks h)) = Inr attrs"
    and e: "NewEntry name v attrs = Inr dir"
    using assms
    by (auto simp: newDir_def Let_def time_Now_def split: sum.splits prod.splits)
  define h2 where "h2 = h\<lparr>h_ticks := Suc (h_ticks h),
      h_dirs := h_dirs h @ [\<lparr>m_closed = False, m_entry = dir, m_entries = []\<rparr>]\<rparr>"
  obtain k where nf: "newfd h2 (length (h_dirs h)) ''.'' O_CREATE (a_mode (e_attrs dir)) = (Inr k, h')"
    and n: "n = length (h_dirs h)"
    using assms a e
    by (auto simp: newDir_def Let_def time_Now_def h2_def split: sum.splits prod.splits)
  have "dir_at h' m = dir_at h m" if "m < n" for m
  proof -
    have "dir_at h' m = dir_at h2 m"
      using newfd_dirs [OF nf] that n by auto
    also have "\<dots> = dir_at h m"
      using that n by (simp add: h2_def dir_at_def nth_append)
    finally show ?thesis .
  qed
  then show ?thesis using n by simp
qed

lemma map_of_append_Some: "map_of xs k = Some e \<Longrightarrow> map_of (xs @ ys) k = Some e"
  by (simp add: map_add_Some_iff)

lemma mkdir_clean_seg:
  assumes "clean_seg d" and "mkdir h m d mode = (Inr n, h')"
  shows "entry h' m d = Inr (DirRef n) \<and> ext h h'"
proof -
  have sp: "SplitPath d = Inr [d]" by (rule SplitPath_clean_seg [OF assms(1)])
  have bd: "Base d = d" using assms(1) by (simp add: clean_seg_def Base_segment)
  have tr: "TrimSpace d = d" by (rule clean_seg_TrimSpace [OF assms(1)])
  from assms(2) obtain dd where dd: "dir_at h m = Some dd" and ne: "d \<noteq> ''.''"
    by (auto simp: mkdir_def sp split: if_splits option.splits)
  from assms(2) dd ne obtain err where err: "entry h m d = Inl err"
    by (auto simp: mkdir_def sp bd split: if_splits option.splits sum.splits)
  from assms(2) dd ne err obtain h1 where nd: "newDir h d mode None = (Inr n, h1)"
    by (auto simp: mkdir_def sp bd Let_def split: if_splits option.splits sum.splits prod.splits)
  have n: "n = length (h_dirs h)" and same: "\<forall>m' < n. dir_at h1 m' = dir_at h m'"
    using newDir_dirs [OF nd] by auto
  have mlt: "m < n" using dd n by (auto simp: dir_at_def split: if_splits)
  have d1: "dir_at h1 m = Some dd" using same mlt dd by simp
  from assms(2) dd ne err nd obtain h2 where ae: "AddEntry h1 m d (DirRef n) = (None, h2)"
    by (auto simp: mkdir_def sp bd Let_def split: if_splits option.splits sum.splits prod.splits)
  have none: "map_of (m_entries dd) d = None"
    and h2: "h2 = set_dir h1 m (dd\<lparr>m_entries := m_entries dd @ [(d, DirRef n)]\<rparr>)"
    using AddEntry_None [OF ae] d1 by auto
  define h3 where "h3 = h2\<lparr>h_ticks := Suc (h_ticks h2)\<rparr>"
  have d3: "dir_at h3 m' = (if m' = m then Some (dd\<lparr>m_entries := m_entries dd @ [(d, DirRef n)]\<rparr>)
      else dir_at h1 m')" for m'
  proof -
    have "dir_at h3 m' = dir_at h2 m'"
      by (simp add: h3_def dir_at_def)
    then show ?thesis
      using dir_at_set_dir [OF d1, of _ m'] by (simp add: h2)
  qed
  obtain e' where h': "h' = set_dir h3 m
      (dd\<lparr>m_entries := m_entries dd @ [(d, DirRef n)], m_entry := e'\<rparr>)"
    using assms(2) dd ne err nd ae d3 [of m]
    by (auto simp: mkdir_def sp bd Let_def time_Now_def h3_def
        split: if_splits option.splits sum.splits prod.splits)
  have at_m: "dir_at h' m = Some (dd\<lparr>m_entries := m_entries dd @ [(d, DirRef n)], m_entry := e'\<rparr>)"
    using dir_at_set_dir [of h3 m _ _ m] d3 [of m] by (simp add: h')
  have other: "dir_at h' m' = dir_at h1 m'" if "m' \<noteq> m" for m'
    using that dir_at_set_dir [of h3 m _ _ m'] d3 [of m] d3 [of m'] by (simp add: h')
  have 1: "entry h' m d = Inr (DirRef n)"
    using at_m none by (simp add: entry_Inr_iff tr map_add_def)
  have 2: "ext h h'"
    unfolding ext_def
  proof (intro allI impI)
    fix m' k e assume a: "entry h m' k = Inr e"
    then obtain dm where dm: "dir_at h m' = Some dm" "map_of (m_entries dm) (TrimSpace k) = Some e"
      by (auto simp: entry_Inr_iff)
    have lt: "m' < n" using dm(1) n by (auto simp: dir_at_def split: if_splits)
    show "entry h' m' k = Inr e"
    proof (cases "m' = m")
      case True
      then have "dm = dd" using dm(1) dd by simp
      then show ?thesis
        using at_m dm(2) True by (simp add: entry_Inr_iff map_of_append_Some)
    next
      case False
      then have "dir_at h' m' = Some dm"
        using other [OF False] same lt dm(1) by simp
      then show ?thesis using dm(2) by (simp add: entry_Inr_iff)
    qed
  qed
  show ?thesis using 1 2 by simp
qed

lemma mkdirAll_loop_ext:
  "list_all clean_seg ds \<Longrightarrow> mkdirAll_loop h m mode ds = (Inr r, h') \<Longrightarrow> ext h h'"
proof (induction ds arbitrary: h m)
  case Nil
  then show ?case by (simp add: ext_refl)
next
  case (Cons d ds)
  have cs: "clean_seg d" "list_all clean_seg ds" using Cons.prems(1) by auto
  show ?case
  proof (cases "entry h m d")
    case (Inr e)
    then obtain m' where e: "e = DirRef m'" and l: "mkdirAll_loop h m' mode ds = (Inr r, h')"
      using Cons.prems(2) by (cases e) (auto simp: stat_clean_seg [OF cs(1)])
    show ?thesis by (rule Cons.IH [OF cs(2) l])
  next
    case (Inl err)
    then obtain n h1 where mk: "mkdir h m d mode = (Inr n, h1)"
      and l: "mkdirAll_loop h1 n mode ds = (Inr r, h')"
      using Cons.prems(2)
      by (auto simp: stat_clean_seg [OF cs(1)] split: if_splits sum.splits prod.splits)
    have "ext h h1" using mkdir_clean_seg [OF cs(1) mk] by simp
    moreover have "ext h1 h'" by (rule Cons.IH [OF cs(2) l])
    ultimately show ?thesis by (rule ext_trans)
  qed
qed

lemma mkdirAll_loop_idem:
  "list_all clean_seg ds \<Longrightarrow> mkdirAll_loop h m mode ds = (Inr r, h')
     \<Longrightarrow> mkdirAll_loop h' m mode ds = (Inr r, h')"
proof (induction ds arbitrary: h m)
  case Nil
  then show ?case by simp
next
  case (Cons d ds)
  have cs: "clean_seg d" "list_all clean_seg ds" using Cons.prems(1) by auto
  show ?case
  proof (cases "entry h m d")
    case (Inr e)
    then obtain m' where e: "e = DirRef m'" and l: "mkdirAll_loop h m' mode ds = (Inr r, h')"
      using Cons.prems(2) by (cases e) (auto simp: stat_clean_seg [OF cs(1)])
    have "ext h h'" by (rule mkdirAll_loop_ext [OF cs(2) l])
    then have "entry h' m d = Inr (DirRef m')"
      using Inr e by (simp add: ext_def)
    then show ?thesis
      using Cons.IH [OF cs(2) l] by (simp add: stat_clean_seg [OF cs(1)])
  next
    case (Inl err)
    then obtain n h1 where mk: "mkdir h m d mode = (Inr n, h1)"
      and l: "mkdirAll_loop h1 n mode ds = (Inr r, h')"
      using Cons.prems(2)
      by (auto simp: stat_clean_seg [OF cs(1)] split: if_splits sum.splits prod.splits)
    have "entry h1 m d = Inr (DirRef n)" using mkdir_clean_seg [OF cs(1) mk] by simp
    moreover have "ext h1 h'" by (rule mkdirAll_loop_ext [OF cs(2) l])
    ultimately have "entry h' m d = Inr (DirRef n)" by (simp add: ext_def)
    then show ?thesis
      using Cons.IH [OF cs(2) l] by (simp add: stat_clean_seg [OF cs(1)])
  qed
qed

text \<open>
  C9, as the code has it. For every heap, directory, mode and path whose segments
  are clean paths of their own: if \<open>MkdirAll\<close> succeeds, a second call succeeds as
  well and leaves the state it finds: the same tree, and nothing else of the heap
  changed either.
\<close>

theorem MkdirAll_idempotent:
  assumes "clean_segments p" and "MemFS_MkdirAll h m p mode = (None, h')"
  shows "MemFS_MkdirAll h' m p mode = (None, h')"
proof -
  obtain path where cp: "CleanPath p = (path, None)"
    using assms(2) by (auto simp: MemFS_MkdirAll_def split: prod.splits option.splits)
  obtain segs where sp: "SplitPath path = Inr segs"
    and cl: "list_all (\<lambda>d. CleanPath d = (d, None)) segs"
    using assms(1) cp by (auto simp: clean_segments_def split: sum.splits)
  have "list_all clean_seg segs"
    using cl SplitPath_segments [OF sp] by (auto simp: list_all_iff clean_seg_def)
  moreover obtain r where "mkdirAll_loop h m mode segs = (Inr r, h')"
    using assms(2) cp sp
    by (auto simp: MemFS_MkdirAll_def mkdirAll_def split: prod.splits sum.splits)
  ultimately have "mkdirAll_loop h' m mode segs = (Inr r, h')"
    by (rule mkdirAll_loop_idem)
  then show ?thesis
    using cp sp by (simp add: MemFS_MkdirAll_def mkdirAll_def)
qed

text \<open>C9 for the path \<open>a/b/c\<close> on the new file system.\<close>

theorem MkdirAll_idempotent_witness:
  "clean_segments ''a/b/c'' \<and>
   (case MemFS_MkdirAll fs_new 0 ''a/b/c'' modePerm of
      (Some err, h') \<Rightarrow> False
    | (None, h') \<Rightarrow> MemFS_MkdirAll h' 0 ''a/b/c'' modePerm = (None, h'))"
proof -
  have c: "clean_segments ''a/b/c''"
    by (simp add: clean_segments_def path_defs)
  have "fst (MemFS_MkdirAll fs_new 0 ''a/b/c'' modePerm) = None"
    by (simp add: fs_new_def heap0_def path_defs entry_defs heap_defs file_defs memfs_defs)
  then obtain h' where h': "MemFS_MkdirAll fs_new 0 ''a/b/c'' modePerm = (None, h')"
    by (cases "MemFS_MkdirAll fs_new 0 ''a/b/c'' modePerm") auto
  show ?thesis
    using c h' MkdirAll_idempotent [OF c h'] by simp
qed

text \<open>
  C9 as stated fails for a path that \<open>CleanPath\<close> rejects: \<open>MkdirAll("/a")\<close>
  fails, the first time already, and changes nothing.
\<close>

theorem MkdirAll_invalid_path_fails:
  "MemFS_MkdirAll fs_new 0 ''/a'' modePerm
     = (Some (Wrap ''memfs'' (PathError ''mkdirAll'' ''/a'' (Wrap ''/a'' ErrInvalid))), fs_new)"
  by (simp add: MemFS_MkdirAll_def path_defs Let_def)

text \<open>
  Scenario A of the specification, and two paths the theorem leaves out. With a
  space before or after a slash the first call succeeds and the second fails: the
  directory that \<open>mkdir\<close> has stored as \<open>"a "\<close> is looked up as \<open>"a"\<close> and not found, and
  the trie refuses to store \<open>"a "\<close> again. For the dot the type assertion on the
  entry found panics.
\<close>

lemma MkdirAll_scenario:
  "case MemFS_MkdirAll fs_new 0 ''a/b/c'' modePerm of
     (Some err, h) \<Rightarrow> False
   | (None, h) \<Rightarrow> map_sum id IsDir (MemFS_Stat h 0 ''a/b'') = Inr True"
  by (simp add: fs_new_def heap0_def path_defs entry_defs heap_defs file_defs memfs_defs)

lemma MkdirAll_space_second_call_fails:
  "case MemFS_MkdirAll fs_new 0 ''a / b'' modePerm of
     (Some err, h) \<Rightarrow> False
   | (None, h) \<Rightarrow>
       fst (MemFS_MkdirAll h 0 ''a / b'' modePerm)
         = Some (Wrap ''memfs'' (PathError ''mkdirAll'' ''a / b''
             (PathError ''mkdir'' ''a '' ErrKeyExists)))"
  by (simp add: fs_new_def heap0_def path_defs entry_defs heap_defs file_defs memfs_defs)

lemma MkdirAll_dot_panics:
  "fst (MemFS_MkdirAll fs_new 0 ''.'' modePerm)
     = Some (Wrap ''memfs'' (PathError ''mkdirAll'' ''.'' Panic))"
  by (simp add: fs_new_def heap0_def path_defs entry_defs heap_defs file_defs memfs_defs)

subsection \<open>WriteFile and ReadFile of a name in one directory\<close>

lemma entry_dirs: "h_dirs h' = h_dirs h \<Longrightarrow> entry h' m k = entry h m k"
  by (simp add: entry_def dir_at_def)

lemma entry_set_fd: "entry (set_fd h k d) m n = entry h m n"
  by (simp add: entry_def dir_at_def set_fd_def)

lemma Write_needs_flag:
  "f_flag f = O_RDONLY \<Longrightarrow> snd (fst (File_Write h f p)) \<noteq> None"
  by (auto simp: File_Write_def checkWrite_def split: sum.splits)

lemma flags_WriteFile:
  "(O_RDWR OR O_CREATE OR O_TRUNC) AND O_CREATE \<noteq> 0"
  "(O_RDWR OR O_CREATE OR O_TRUNC) AND O_TRUNC > 0"
  "O_RDWR OR O_CREATE OR O_TRUNC \<noteq> O_RDONLY"
  "\<not> O_RDONLY AND O_TRUNC > 0" "O_RDONLY \<noteq> O_WRONLY"
  by (simp_all add: O_RDWR_def O_CREATE_def O_TRUNC_def O_RDONLY_def O_WRONLY_def)

text \<open>
  The handle \<open>WriteFile\<close> opens for a name that is one clean segment, not the dot,
  with a mode that is not a directory's: a fresh handle on the regular file that
  the name now denotes in the directory.
\<close>

lemma open_for_write:
  assumes cs: "clean_seg name" and nd: "name \<noteq> ''.''" and md: "mode AND ModeDir = 0"
    and wf: "wf_dots h"
    and op: "MemFS_open h m op' name (O_RDWR OR O_CREATE OR O_TRUNC) mode = (Inr f, h1)"
    and fl: "f_flag f \<noteq> O_RDONLY"
  shows "regular_handle h1 f \<and> \<not> f_closed f \<and> f_wOff f = 0
         \<and> entry h1 m name = Inr (FdRef (f_fd f))
         \<and> (\<exists>d. fd_at h1 (f_fd f) = Some d
               \<and> (fd_data d = [] \<or> (\<exists>d0 \<in> set (h_fds h). fd_data d = fd_data d0)))"
proof -
  let ?flag = "O_RDWR OR O_CREATE OR O_TRUNC"
  have cp: "CleanPath name = (name, None)" using cs by (simp add: clean_seg_def)
  have st: "stat h m name = entry h m name" by (rule stat_clean_seg [OF cs])
  have bn: "Base name = name" using cs by (simp add: clean_seg_def Base_segment)
  have tr: "TrimSpace name = name" by (rule clean_seg_TrimSpace [OF cs])
  show ?thesis
  proof (cases "entry h m name")
    case (Inr e)
    show ?thesis
    proof (cases e)
      case (FdRef k)
      then obtain d where d: "fd_at h k = Some d"
        using op cp st Inr by (auto simp: MemFS_open_def split: option.splits)
      have nid: "\<not> IsDir (fd_entry d)"
        using op cp st Inr FdRef d fl
        by (auto simp: MemFS_open_def newFile_def split: if_splits)
      have mem: "d \<in> set (h_fds h)"
        using d by (auto simp: fd_at_def split: if_splits)
      then have nm: "Name (fd_entry d) \<noteq> ''.''"
        using wf nid by (auto simp: wf_dots_def list_all_iff)
      have f: "f = \<lparr>f_closed = False, f_fd = k, f_flag = ?flag, f_rOff = 0, f_wOff = 0\<rparr>"
        and h1: "h1 = set_fd h k (d\<lparr>fd_entry := SetSize (fd_entry d) 0\<rparr>)"
        using op cp st Inr FdRef d nid flags_WriteFile(2)
        by (auto simp: MemFS_open_def newFile_def)
      have at: "fd_at h1 k = Some (d\<lparr>fd_entry := SetSize (fd_entry d) 0\<rparr>)"
        using d by (simp add: h1 fd_at_set_fd)
      moreover have "Name (SetSize (fd_entry d) 0) = Name (fd_entry d)"
        "IsDir (SetSize (fd_entry d) 0) = IsDir (fd_entry d)"
        by (simp_all add: SetSize_def Name_def IsDir_def)
      ultimately have "regular_handle h1 f"
        using nm nid by (simp add: regular_handle_def f)
      moreover have "entry h1 m name = Inr (FdRef k)"
        using Inr FdRef by (simp add: h1 entry_set_fd)
      moreover have "\<exists>d0 \<in> set (h_fds h). fd_data (d\<lparr>fd_entry := SetSize (fd_entry d) 0\<rparr>) = fd_data d0"
        using mem by auto
      ultimately show ?thesis using at by (simp add: f)
    next
      case (DirRef m')
      then have "f_flag f = O_RDONLY"
        using op cp st Inr
        by (auto simp: MemFS_open_def newFile_def split: option.splits sum.splits prod.splits)
      then show ?thesis using fl by simp
    qed
  next
    case (Inl err)
    have sp: "SplitPath name = Inr [name]" by (rule SplitPath_clean_seg [OF cs])
    from op cp st Inl obtain k h0 where nf: "newfd h m name ?flag mode = (Inr k, h0)"
      and nfile: "newFile h0 k ?flag = (Inr f, h1)"
      using md
      by (auto simp: MemFS_open_def create_def sp split: if_splits sum.splits prod.splits)
    define e where "e = \<lparr>e_attrs = (WithMode mode Attribute0)\<lparr>a_ctime := h_clock h (h_ticks h)\<rparr>,
        e_path = name, e_pathValidator = None\<rparr>"
    have e: "e_path e = name" "a_mode (e_attrs e) = mode"
      by (simp_all add: e_def WithMode_def)
    define h2 where "h2 = h\<lparr>h_ticks := Suc (h_ticks h), h_fds := h_fds h @
        [\<lparr>fd_data = [], fd_dir = m, fd_entry = e, fd_readers = 0\<rparr>]\<rparr>"
    from nf Inl have k: "k = length (h_fds h)"
      and ae: "AddEntry h2 m name (FdRef k) = (None, h0)"
      by (auto simp: newfd_def Let_def time_Now_def NewEntry_def NewAttributes_def WithMode_def
          Attribute0_def e_def h2_def
          split: if_splits sum.splits prod.splits option.splits)
    from AddEntry_None [OF ae] obtain dd where dd: "dir_at h2 m = Some dd"
      "map_of (m_entries dd) name = None"
      and h0: "h0 = set_dir h2 m (dd\<lparr>m_entries := m_entries dd @ [(name, FdRef k)]\<rparr>)"
      by blast
    have d0: "fd_at h0 k = Some \<lparr>fd_data = [], fd_dir = m, fd_entry = e, fd_readers = 0\<rparr>"
      by (simp add: h0 h2_def k fd_at_def set_dir_def)
    have f: "f = \<lparr>f_closed = False, f_fd = k, f_flag = ?flag, f_rOff = 0, f_wOff = 0\<rparr>"
      and h1: "h1 = set_fd h0 k (\<lparr>fd_data = [], fd_dir = m, fd_entry = SetSize e 0, fd_readers = 0\<rparr>)"
      using nfile d0 flags_WriteFile(2) by (auto simp: newFile_def)
    have at: "fd_at h1 k = Some \<lparr>fd_data = [], fd_dir = m, fd_entry = SetSize e 0, fd_readers = 0\<rparr>"
      using d0 by (simp add: h1 fd_at_set_fd)
    moreover have "Name (SetSize e 0) = name" "\<not> IsDir (SetSize e 0)"
      using e md bn by (simp_all add: SetSize_def Name_def IsDir_def)
    ultimately have "regular_handle h1 f"
      using nd by (simp add: regular_handle_def f)
    moreover have "entry h0 m name = Inr (FdRef k)"
      using dd dir_at_set_dir [OF dd(1), of _ m]
      by (simp add: h0 entry_Inr_iff tr map_add_def)
    then have "entry h1 m name = Inr (FdRef k)"
      by (simp add: h1 entry_set_fd)
    ultimately show ?thesis using at by (simp add: f)
  qed
qed

text \<open>
  So for such a name, in every directory of every heap, \<open>ReadFile\<close> returns what a
  successful \<open>WriteFile\<close> wrote.
\<close>

lemma WriteFile_ReadFile_flat:
  assumes cs: "clean_seg name" and nd: "name \<noteq> ''.''" and md: "mode AND ModeDir = 0"
    and wf: "wf_dots h" and fit: "buffers_fit h (length data)"
    and ok: "MemFS_WriteFile h m name data mode = (None, h')"
  shows "fst (MemFS_ReadFile h' m name) = Inr data"
proof -
  obtain f h1 n f' where op: "MemFS_open h m ''writeFile'' name (O_RDWR OR O_CREATE OR O_TRUNC) mode
        = (Inr f, h1)"
    and wr: "File_Write h1 f data = ((n, None), h', f')"
    using ok by (auto simp: MemFS_WriteFile_def split: sum.splits prod.splits option.splits)
  have fl: "f_flag f \<noteq> O_RDONLY"
    using Write_needs_flag [of f h1 data] wr by auto
  have A: "regular_handle h1 f" "\<not> f_closed f" "f_wOff f = 0"
    "entry h1 m name = Inr (FdRef (f_fd f))"
    using open_for_write [OF cs nd md wf op fl] by auto
  obtain d where d: "fd_at h1 (f_fd f) = Some d"
    and old: "fd_data d = [] \<or> (\<exists>d0 \<in> set (h_fds h). fd_data d = fd_data d0)"
    using open_for_write [OF cs nd md wf op fl] by auto
  have dn: "Name (fd_entry d) \<noteq> ''.''" "\<not> IsDir (fd_entry d)"
    using A(1) d by (auto simp: regular_handle_def)
  have fd: "int (length (fd_data d) + length data) < 2 ^ 63"
    using old fit by (auto simp: buffers_fit_def list_all_iff)
  obtain d' where d': "fd_at h' (f_fd f) = Some d'" "e_path (fd_entry d') = e_path (fd_entry d)"
    "a_mode (e_attrs (fd_entry d')) = a_mode (e_attrs (fd_entry d))"
    and dirs: "h_dirs h' = h_dirs h1"
    using Write_result [OF A(1,2) fl d _ _ fd wr] A(3) by auto
  have nid: "\<not> IsDir (fd_entry d')"
    using dn(2) d'(3) by (simp add: IsDir_def)
  have en: "entry h' m name = Inr (FdRef (f_fd f))"
    using A(4) by (simp add: entry_dirs [OF dirs])
  define g where "g = \<lparr>f_closed = False, f_fd = f_fd f, f_flag = O_RDONLY, f_rOff = 0, f_wOff = 0\<rparr>"
  have o: "MemFS_Open h' m name = (Inr g, h')"
    using cs en d'(1) nid flags_WriteFile(4)
    by (simp add: MemFS_Open_def MemFS_open_def clean_seg_def stat_clean_seg [OF cs]
        newFile_def g_def)
  have "fst (ReadAll_loop h' g []) = Inr data"
    using Write_then_ReadAll [OF A(1,2) fl A(3) wr, of g, OF _ _ _ _ d fd] flags_WriteFile(5)
    by (simp add: g_def)
  then show ?thesis
    by (auto simp: MemFS_ReadFile_def o split: sum.splits prod.splits)
qed

lemma WriteFile_ReadFile_flat_example:
  "clean_seg ''f'' \<and> wf_dots fs_new \<and> buffers_fit fs_new (length hello)
   \<and> fst (MemFS_WriteFile fs_new 0 ''f'' hello modePerm) = None
   \<and> fst (MemFS_ReadFile fs_hello 0 ''f'') = Inr hello"
proof -
  have c: "clean_seg ''f''"
    by (simp add: clean_seg_def path_defs)
  have w: "wf_dots fs_new"
    by (simp add: wf_dots_def fs_new_def heap0_def path_defs entry_defs heap_defs file_defs
        memfs_defs)
  have b: "buffers_fit fs_new (length hello)"
    by (simp add: buffers_fit_def hello_def fs_new_def heap0_def path_defs entry_defs heap_defs
        file_defs memfs_defs)
  have m: "modePerm AND ModeDir = 0"
    by (simp add: modePerm_def ModeDir_def)
  have "MemFS_WriteFile fs_new 0 ''f'' hello modePerm = (None, fs_hello)"
    using fs_hello_written by (simp add: fs_hello_def prod_eq_iff)
  from WriteFile_ReadFile_flat [OF c _ m w b this] show ?thesis
    using c w b fs_hello_written by simp
qed

end
